theory Spec2Isabelle
  imports Complex_Main
begin

section \<open>JavaScript strings\<close>

text \<open>
  A string is a list of code units. The model uses the code units below 256, so a
  \<^typ>\<open>char\<close> stands for the code unit of the same number. The whitespace class
  \<^verbatim>\<open>\s\<close> of a regular expression and the characters removed by \<^verbatim>\<open>trim()\<close>
  are the same set; below 256 it is TAB, LF, VT, FF, CR, SPACE and NBSP.
\<close>

definition LF :: char where "LF = CHR 0x0A"
definition CR :: char where "CR = CHR 0x0D"
definition DQUOTE :: char where "DQUOTE = CHR 0x22"
definition COMMA :: char where "COMMA = CHR 0x2C"
definition SPACE :: char where "SPACE = CHR 0x20"

definition isSpace :: "char \<Rightarrow> bool" where
  "isSpace c \<longleftrightarrow>
     c = CHR 0x09 \<or> c = CHR 0x0A \<or> c = CHR 0x0B \<or> c = CHR 0x0C \<or> c = CHR 0x0D \<or>
     c = CHR 0x20 \<or> c = CHR 0xA0"

text \<open>\<^verbatim>\<open>s.trim()\<close>\<close>

definition trim :: "string \<Rightarrow> string" where
  "trim s = rev (dropWhile isSpace (rev (dropWhile isSpace s)))"

text \<open>\<^verbatim>\<open>s.replace(/\s+/g, ' ')\<close>: every maximal run of whitespace becomes one space.\<close>

function collapseWhitespace :: "string \<Rightarrow> string" where
  "collapseWhitespace [] = []"
| "collapseWhitespace (c # cs) =
     (if isSpace c then SPACE # collapseWhitespace (dropWhile isSpace cs)
      else c # collapseWhitespace cs)"
  by pat_completeness auto
termination
  by (relation "measure length") (auto simp: less_Suc_eq_le length_dropWhile_le)

text \<open>\<^verbatim>\<open>s.replace(/"/g, '""')\<close>\<close>

definition doubleQuotes :: "string \<Rightarrow> string" where
  "doubleQuotes s = concat (map (\<lambda>c. if c = DQUOTE then [DQUOTE, DQUOTE] else [c]) s)"

text \<open>\<^verbatim>\<open>s.includes(c)\<close> for a one-character needle.\<close>

definition includesChar :: "string \<Rightarrow> char \<Rightarrow> bool" where
  "includesChar s c \<longleftrightarrow> c \<in> set s"


section \<open>Job records\<close>

text \<open>
  The interface \<^verbatim>\<open>JobData\<close>: six required string fields; an optional field is
  \<open>None\<close> when the property is absent (\<^verbatim>\<open>undefined\<close>).
\<close>

record JobData =
  title :: string
  company :: string
  location :: string
  description :: string
  salary :: "string option"
  jobType :: "string option"
  experience :: "string option"
  workplaceType :: "string option"
  applicantCount :: "string option"
  companySize :: "string option"
  linkedinEmployees :: "string option"
  industry :: "string option"
  followers :: "string option"
  hiringInsights :: "string option"
  benefits :: "string option"
  skills :: "string option"
  companyDescription :: "string option"
  companyCommitments :: "string option"
  url :: string
  postedDate :: "string option"
  postedDateISO :: "string option"
  scrapedAt :: string

section \<open>CSV export (background script)\<close>

text \<open>
  A value handed to \<^verbatim>\<open>escapeCsvField\<close>: a string, or any value whose
  \<^verbatim>\<open>typeof\<close> is not \<^verbatim>\<open>'string'\<close> (undefined, null, a number, an object).
\<close>

datatype jsvalue = JStr string | JNonString

text \<open>The cleaning step of \<^verbatim>\<open>escapeCsvField\<close>: \<^verbatim>\<open>field.trim().replace(/\s+/g, ' ')\<close>.\<close>

definition cleanField :: "string \<Rightarrow> string" where
  "cleanField field = collapseWhitespace (trim field)"

text \<open>
  \<^verbatim>\<open>escapeCsvField\<close>: a falsy or non-string value gives the empty string; otherwise
  the cleaned field, wrapped in quotes with its quotes doubled when it includes a comma,
  a quote, a line feed or a carriage return.
\<close>

fun escapeCsvField :: "jsvalue \<Rightarrow> string" where
  "escapeCsvField JNonString = []"
| "escapeCsvField (JStr field) =
     (if field = [] then []
      else let cleanField = cleanField field in
        if includesChar cleanField COMMA \<or> includesChar cleanField DQUOTE \<or>
           includesChar cleanField LF \<or> includesChar cleanField CR
        then [DQUOTE] @ doubleQuotes cleanField @ [DQUOTE]
        else cleanField)"





text \<open>
  Reading one field back by the rules of RFC 4180 (the repository has no CSV reader; this
  is the standard's grammar): an escaped field is a quote, then characters in which a
  quote is written twice, then a quote; a field that does not start with a quote is taken
  as it stands and holds no comma, quote, CR or LF. \<open>None\<close> is a field the grammar
  does not accept.
\<close>

fun rfc4180_escaped_body :: "string \<Rightarrow> string option" where
  "rfc4180_escaped_body [] = None"
| "rfc4180_escaped_body [c] = (if c = DQUOTE then Some [] else None)"
| "rfc4180_escaped_body (c # d # cs) =
     (if c = DQUOTE then
        (if d = DQUOTE then map_option (\<lambda>r. DQUOTE # r) (rfc4180_escaped_body cs) else None)
      else map_option (\<lambda>r. c # r) (rfc4180_escaped_body (d # cs)))"

definition rfc4180_field :: "string \<Rightarrow> string option" where
  "rfc4180_field s =
    (case s of
       [] \<Rightarrow> Some []
     | c # cs \<Rightarrow>
         if c = DQUOTE then rfc4180_escaped_body cs
         else if includesChar s COMMA \<or> includesChar s DQUOTE \<or> includesChar s LF \<or>
                 includesChar s CR
         then None else Some s)"

text \<open>
  A string in the form the cleaning step produces, stated on its own: it starts with a
  character that is no whitespace, and whitespace occurs in it only as one space between
  two characters that are no whitespace.
\<close>

fun wsNormal :: "string \<Rightarrow> bool" where
  "wsNormal [] = True"
| "wsNormal (c # cs) =
     (\<not> isSpace c \<and>
      (case cs of [] \<Rightarrow> True
       | d # ds \<Rightarrow> if d = SPACE then ds \<noteq> [] \<and> wsNormal ds else wsNormal cs))"

section \<open>Duplicate detection and the persisted store\<close>

text \<open>
  \<^verbatim>\<open>isDuplicateJob\<close> of the content script: some record of the session has the
  title, company and url of the new one.
\<close>

definition isDuplicateJob :: "JobData list \<Rightarrow> JobData \<Rightarrow> bool" where
  "isDuplicateJob jobs newJob \<longleftrightarrow>
     list_ex (\<lambda>job. title job = title newJob \<and> company job = company newJob \<and>
                     url job = url newJob) jobs"

text \<open>
  The insertion of \<^verbatim>\<open>scrapeJobListings\<close> and \<^verbatim>\<open>scrapeJobDetail\<close>:
  \<^verbatim>\<open>if (jobData && !this.isDuplicateJob(jobData)) this.jobs.push(jobData)\<close>, where
  \<open>None\<close> is the \<^verbatim>\<open>null\<close> of a rejected extraction.
\<close>

definition pushIfNew :: "JobData list \<Rightarrow> JobData option \<Rightarrow> JobData list" where
  "pushIfNew jobs jobData =
    (case jobData of
       None \<Rightarrow> jobs
     | Some j \<Rightarrow> if \<not> isDuplicateJob jobs j then jobs @ [j] else jobs)"

text \<open>
  \<^verbatim>\<open>handleSaveJobs\<close> of the background script, as a function from the store to the
  store. The payload is \<open>None\<close> when it is not an array (the store is left alone). The
  filter compares each new job with the jobs stored before the call.
\<close>

definition handleSaveJobs :: "JobData list \<Rightarrow> JobData list option \<Rightarrow> JobData list" where
  "handleSaveJobs scrapedJobs newJobs =
    (case newJobs of
       None \<Rightarrow> scrapedJobs
     | Some new \<Rightarrow>
         let jobsToAdd =
           filter (\<lambda>newJob.
             \<not> list_ex (\<lambda>existingJob. title existingJob = title newJob \<and>
                                       company existingJob = company newJob \<and>
                                       url existingJob = url newJob) scrapedJobs) new
         in scrapedJobs @ jobsToAdd)"

text \<open>The identity key of a record.\<close>

definition identityKey :: "JobData \<Rightarrow> string \<times> string \<times> string" where
  "identityKey j = (title j, company j, url j)"

section \<open>The command bus\<close>

record message =
  action :: string
  payload :: "JobData list option"

text \<open>A response object; a property that the object does not have is \<open>None\<close>.\<close>

record response =
  success :: "bool option"
  error :: "string option"
  jobCount :: "nat option"
  jobsOut :: "JobData list option"

definition emptyResponse :: response where
  "emptyResponse = \<lparr>success = None, error = None, jobCount = None, jobsOut = None\<rparr>"

text \<open>
  The listener of the background script. Its state is the array \<^verbatim>\<open>scrapedJobs\<close>.
  \<open>failure\<close> is the message of the error with which the handler's promise rejects
  (storage or notification failure), \<open>None\<close> when it resolves; the response is the
  one sent when the promise settles. \<^verbatim>\<open>handleSaveJobs\<close> pushes before it writes to
  storage, so a rejected write leaves the pushed jobs in the array.
\<close>

definition backgroundOnMessage ::
  "string option \<Rightarrow> JobData list \<Rightarrow> message \<Rightarrow> response \<times> JobData list" where
  "backgroundOnMessage failure scrapedJobs msg =
    (if action msg = ''SAVE_JOBS'' then
       (let scrapedJobs' = handleSaveJobs scrapedJobs (payload msg) in
        case failure of
          None \<Rightarrow> (emptyResponse\<lparr>success := Some True, jobCount := Some (length scrapedJobs')\<rparr>,
                    scrapedJobs')
        | Some e \<Rightarrow> (emptyResponse\<lparr>success := Some False, error := Some e\<rparr>, scrapedJobs'))
     else if action msg = ''GET_ALL_JOBS'' then
       (emptyResponse\<lparr>jobsOut := Some scrapedJobs\<rparr>, scrapedJobs)
     else if action msg = ''EXPORT_CSV'' then
       (case failure of
          None \<Rightarrow> (emptyResponse\<lparr>success := Some True\<rparr>, scrapedJobs)
        | Some e \<Rightarrow> (emptyResponse\<lparr>success := Some False, error := Some e\<rparr>, scrapedJobs))
     else if action msg = ''CLEAR_JOBS'' then
       (case failure of
          None \<Rightarrow> (emptyResponse\<lparr>success := Some True\<rparr>, [])
        | Some e \<Rightarrow> (emptyResponse\<lparr>success := Some False, error := Some e\<rparr>, []))
     else (emptyResponse\<lparr>error := Some ''Unknown action''\<rparr>, scrapedJobs))"

text \<open>
  The listener of the content script. Its state is the session: the array
  \<^verbatim>\<open>jobs\<close> and the flag \<^verbatim>\<open>isScrapingActive\<close>. The state returned is the one at the
  time the response is sent: \<^verbatim>\<open>startScraping\<close> has set the flag and emptied the array
  (the crawl itself runs later, from the first suspension on), \<^verbatim>\<open>stopScraping\<close> has
  cleared the flag. \<open>failure\<close> is the message of an error thrown inside the
  \<^verbatim>\<open>try\<close> block by \<^verbatim>\<open>stopScraping\<close>, \<open>None\<close> when nothing is thrown.
\<close>

record session =
  jobs :: "JobData list"
  isScrapingActive :: bool

definition contentOnMessage ::
  "string option \<Rightarrow> session \<Rightarrow> message \<Rightarrow> response \<times> session" where
  "contentOnMessage failure s msg =
    (if action msg = ''START_SCRAPING'' then
       (emptyResponse\<lparr>success := Some True\<rparr>, s\<lparr>isScrapingActive := True, jobs := []\<rparr>)
     else if action msg = ''STOP_SCRAPING'' then
       (case failure of
          None \<Rightarrow> (emptyResponse\<lparr>success := Some True\<rparr>, s\<lparr>isScrapingActive := False\<rparr>)
        | Some e \<Rightarrow> (emptyResponse\<lparr>success := Some False, error := Some e\<rparr>,
                     s\<lparr>isScrapingActive := False\<rparr>))
     else if action msg = ''GET_SCRAPED_JOBS'' then
       (emptyResponse\<lparr>jobsOut := Some (jobs s)\<rparr>, s)
     else (emptyResponse\<lparr>success := Some False, error := Some ''Unknown action''\<rparr>, s))"

section \<open>Pagination\<close>

definition JOBS_PER_PAGE :: int where "JOBS_PER_PAGE = 25"

definition MAX_LOW_YIELD_PAGES :: nat where "MAX_LOW_YIELD_PAGES = 3"

text \<open>
  \<^verbatim>\<open>parseInt(s, 10)\<close>: leading whitespace is skipped, one sign is read, then the
  longest run of decimal digits; with no digit the result is NaN, here \<open>None\<close>.
\<close>

definition isDigit :: "char \<Rightarrow> bool" where
  "isDigit c \<longleftrightarrow> (48::nat) \<le> of_char c \<and> of_char c \<le> (57::nat)"

definition digitsValue :: "string \<Rightarrow> int" where
  "digitsValue ds = foldl (\<lambda>acc c. 10 * acc + (of_char c - 48)) 0 ds"

definition parseInt10 :: "string \<Rightarrow> int option" where
  "parseInt10 s =
    (let t = dropWhile isSpace s;
         sign = (case t of c # cs \<Rightarrow> if c = CHR ''-'' then - 1 else 1 | [] \<Rightarrow> (1::int));
         u = (case t of c # cs \<Rightarrow> if c = CHR ''-'' \<or> c = CHR ''+'' then cs else t | [] \<Rightarrow> t);
         z = takeWhile isDigit u
     in if z = [] then None else Some (sign * digitsValue z))"

text \<open>
  The result of \<^verbatim>\<open>getPaginationInfo\<close>. \<open>currentPage\<close> is \<open>None\<close> when it is NaN
  (a \<^verbatim>\<open>start\<close> parameter with no number in it).
\<close>

record PaginationInfo =
  currentPage :: "int option"
  totalPages :: int
  totalResults :: int
  calculatedPages :: int

text \<open>
  \<^verbatim>\<open>getPaginationInfo\<close>. What it reads from the page is given: \<open>resultsMatch\<close> is
  the number that the group of \<^verbatim>\<open>/(\d{1,3}(?:,\d{3})*)\s*results?/i\<close> captured, its
  commas removed (\<open>None\<close>: no match, or no element); \<open>startParam\<close> is the
  \<^verbatim>\<open>start\<close> query parameter (\<open>None\<close>: absent); \<open>pageMatch\<close> holds the two numbers
  of \<^verbatim>\<open>/Page\s+(\d+)\s+of\s+(\d+)/i\<close>. The groups match digits only, so their
  \<^verbatim>\<open>parseInt\<close> is a natural number. A quotient is taken in the reals before
  \<^verbatim>\<open>Math.ceil\<close> and \<^verbatim>\<open>Math.floor\<close>.
\<close>

definition getPaginationInfo ::
  "nat option \<Rightarrow> string option \<Rightarrow> (nat \<times> nat) option \<Rightarrow> PaginationInfo" where
  "getPaginationInfo resultsMatch startParam pageMatch =
    (let totalResults = (case resultsMatch of Some n \<Rightarrow> int n | None \<Rightarrow> 0);
         calculatedPages =
           (if totalResults > 0 then \<lceil>real_of_int totalResults / real_of_int JOBS_PER_PAGE\<rceil>
            else 1);
         currentPageFromUrl =
           (case startParam of
              None \<Rightarrow> Some 1
            | Some sp \<Rightarrow>
                if sp = [] then Some 1
                else map_option (\<lambda>n. \<lfloor>real_of_int n / real_of_int JOBS_PER_PAGE\<rfloor> + 1)
                       (parseInt10 sp));
         currentPageFromUI =
           (case pageMatch of Some (x, y) \<Rightarrow> Some (int x) | None \<Rightarrow> currentPageFromUrl);
         displayedTotalPages =
           (case pageMatch of Some (x, y) \<Rightarrow> int y | None \<Rightarrow> calculatedPages);
         currentPage = currentPageFromUrl;
         totalPages = max calculatedPages displayedTotalPages
     in \<lparr>currentPage = currentPage, totalPages = totalPages, totalResults = totalResults,
         calculatedPages = calculatedPages\<rparr>)"

section \<open>The page loop of \<^verbatim>\<open>scrapeAllPages\<close>\<close>

text \<open>
  What one iteration of the page loop observes: \<open>newJobsThisPage\<close> is
  \<^verbatim>\<open>this.jobs.length - jobsBeforePage\<close> after \<^verbatim>\<open>scrapeJobListingsDetailed\<close>;
  \<open>activeAfterScrape\<close> is \<^verbatim>\<open>isScrapingActive\<close> where the loop decides whether to
  navigate; \<open>navigated\<close> is the result of \<^verbatim>\<open>navigateToNextPage\<close>;
  \<open>activeAtLoopTop\<close> is the flag when the loop condition is tested again.
\<close>

record PageRun =
  newJobsThisPage :: int
  activeAfterScrape :: bool
  navigated :: bool
  activeAtLoopTop :: bool

datatype pageLoopExit =
  LowYieldAbort       \<comment> \<open>break after MAX_LOW_YIELD_PAGES consecutive low-yield pages\<close>
| NavigationFailed    \<comment> \<open>break: navigateToNextPage returned false\<close>
| NoNextPage          \<comment> \<open>break: last page, or the run was stopped before navigating\<close>
| LoopConditionFalse  \<comment> \<open>the while condition is false\<close>

text \<open>
  The loop. \<open>lastPage\<close> is \<^verbatim>\<open>paginationInfo.totalPages\<close>, \<open>page\<close> the variable
  \<^verbatim>\<open>currentPage\<close>, \<open>lowYield\<close> the variable \<^verbatim>\<open>consecutiveLowYieldPages\<close> and
  \<open>active\<close> the flag \<^verbatim>\<open>isScrapingActive\<close> as the loop condition reads it;
  \<open>env k\<close> is what the iteration number \<open>k\<close> observes and \<open>n\<close> counts the iterations
  made so far. The result is the way the loop ended, the number of pages scraped and
  the last value of the counter.
\<close>

function pageLoop ::
  "(nat \<Rightarrow> PageRun) \<Rightarrow> int \<Rightarrow> int \<Rightarrow> nat \<Rightarrow> bool \<Rightarrow> nat \<Rightarrow> pageLoopExit \<times> nat \<times> nat" where
  "pageLoop env lastPage page lowYield active n =
    (if page \<le> lastPage \<and> active then
       (let p = env n;
            lowYield' = (if newJobsThisPage p < 5 then lowYield + 1 else 0)
        in if newJobsThisPage p < 5 \<and> lowYield' \<ge> MAX_LOW_YIELD_PAGES
           then (LowYieldAbort, n + 1, lowYield')
           else if page < lastPage \<and> activeAfterScrape p then
             (if \<not> navigated p then (NavigationFailed, n + 1, lowYield')
              else pageLoop env lastPage (page + 1) lowYield' (activeAtLoopTop p) (n + 1))
           else (NoNextPage, n + 1, lowYield'))
     else (LoopConditionFalse, n, lowYield))"
  by pat_completeness auto
termination
  by (relation "measure (\<lambda>(env, lastPage, page, c, a, n). nat (lastPage - page))") auto

declare pageLoop.simps [simp del]

text \<open>
  \<^verbatim>\<open>scrapeAllPages\<close>: the loop starts at the current page of the pagination info
  with the counter at 0 and the flag as it is; a NaN current page fails the loop
  condition at once.
\<close>

definition scrapeAllPages ::
  "(nat \<Rightarrow> PageRun) \<Rightarrow> PaginationInfo \<Rightarrow> bool \<Rightarrow> pageLoopExit \<times> nat \<times> nat" where
  "scrapeAllPages env paginationInfo active =
    (case currentPage paginationInfo of
       None \<Rightarrow> (LoopConditionFalse, 0, 0)
     | Some cp \<Rightarrow> pageLoop env (totalPages paginationInfo) cp 0 active 0)"

text \<open>
  The number of consecutive low-yield pages (fewer than 5 new jobs) at the end of a
  sequence of page yields.
\<close>

definition trailingLowYield :: "int list \<Rightarrow> nat" where
  "trailingLowYield ys = length (takeWhile (\<lambda>y. y < 5) (rev ys))"

text \<open>The yields that the iterations \<open>m\<close> to \<open>n - 1\<close> observe.\<close>

definition pageYields :: "(nat \<Rightarrow> PageRun) \<Rightarrow> nat \<Rightarrow> nat \<Rightarrow> int list" where
  "pageYields env m n = map (\<lambda>k. newJobsThisPage (env k)) [m..<n]"

text \<open>The update of the counter, page after page, from the value \<open>c\<close>.\<close>

definition lowYieldCounter :: "nat \<Rightarrow> int list \<Rightarrow> nat" where
  "lowYieldCounter c ys = fold (\<lambda>y c. if y < 5 then c + 1 else 0) ys c"

section \<open>The scroll loop of \<^verbatim>\<open>triggerLazyLoadingOfAllJobs\<close>\<close>

definition maxScrollAttempts :: nat where "maxScrollAttempts = 20"

text \<open>
  What one iteration of the scroll loop observes: the flag \<^verbatim>\<open>isScrapingActive\<close>
  in the loop condition, the number of cards in the container, and whether the
  pagination element exists with its top less than 100 px below the bottom of the
  container.
\<close>

record ScrollRead =
  stillActive :: bool
  cardCount :: nat
  paginationReached :: bool

datatype scrollLoopExit =
  ReachedPagination    \<comment> \<open>break: the pagination element is in reach\<close>
| CountStabilized      \<comment> \<open>break: stableCount reached 3\<close>
| AttemptsExhausted    \<comment> \<open>the condition fails: scrollAttempts is maxScrollAttempts\<close>
| ScrapingStopped      \<comment> \<open>the condition fails: the run is no longer active\<close>

text \<open>
  The loop. \<open>env k\<close> is what the iteration with \<^verbatim>\<open>scrollAttempts = k\<close> observes.
  The result is the way the loop ended and the number of iterations whose body was
  entered.
\<close>

function scrollLoop ::
  "(nat \<Rightarrow> ScrollRead) \<Rightarrow> nat \<Rightarrow> nat \<Rightarrow> nat \<Rightarrow> scrollLoopExit \<times> nat" where
  "scrollLoop env previousJobCount stableCount scrollAttempts =
    (if scrollAttempts < maxScrollAttempts \<and> stillActive (env scrollAttempts) then
       (let currentJobCount = cardCount (env scrollAttempts)
        in if paginationReached (env scrollAttempts)
           then (ReachedPagination, scrollAttempts + 1)
           else if currentJobCount = previousJobCount then
             (if stableCount + 1 \<ge> 3 then (CountStabilized, scrollAttempts + 1)
              else scrollLoop env currentJobCount (stableCount + 1) (scrollAttempts + 1))
           else scrollLoop env currentJobCount 0 (scrollAttempts + 1))
     else if scrollAttempts < maxScrollAttempts then (ScrapingStopped, scrollAttempts)
     else (AttemptsExhausted, scrollAttempts))"
  by pat_completeness auto
termination
  by (relation "measure (\<lambda>(env, p, s, a). maxScrollAttempts - a)") auto

declare scrollLoop.simps [simp del]

text \<open>The loop as \<^verbatim>\<open>triggerLazyLoadingOfAllJobs\<close> starts it.\<close>

definition triggerLazyLoading :: "(nat \<Rightarrow> ScrollRead) \<Rightarrow> scrollLoopExit \<times> nat" where
  "triggerLazyLoading env = scrollLoop env 0 0 0"

text \<open>
  The read of iteration \<open>k\<close> is unchanged when it equals the read before it; the first
  read is compared with the initial value 0 of \<^verbatim>\<open>previousJobCount\<close>.
\<close>

definition unchangedRead :: "(nat \<Rightarrow> ScrollRead) \<Rightarrow> nat \<Rightarrow> bool" where
  "unchangedRead env k \<longleftrightarrow>
     cardCount (env k) = (if k = 0 then 0 else cardCount (env (k - 1)))"

text \<open>The number of consecutive unchanged reads just before iteration \<open>k\<close>.\<close>

fun trailingUnchanged :: "(nat \<Rightarrow> ScrollRead) \<Rightarrow> nat \<Rightarrow> nat" where
  "trailingUnchanged env 0 = 0"
| "trailingUnchanged env (Suc k) = (if unchangedRead env k then Suc (trailingUnchanged env k) else 0)"

text \<open>
  What holds of a run of the scroll loop that starts at iteration \<open>a\<close> and ends with
  \<open>ex\<close> after \<open>k\<close> iterations.
\<close>

definition scrollInv :: "(nat \<Rightarrow> ScrollRead) \<Rightarrow> scrollLoopExit \<Rightarrow> nat \<Rightarrow> nat \<Rightarrow> bool" where
  "scrollInv env ex k a \<longleftrightarrow>
     a \<le> k \<and> k \<le> maxScrollAttempts \<and>
     (ex = CountStabilized \<longrightarrow> a < k \<and> trailingUnchanged env k = 3 \<and>
        \<not> paginationReached (env (k - 1))) \<and>
     (ex = ReachedPagination \<longrightarrow> a < k \<and> paginationReached (env (k - 1))) \<and>
     (ex = ScrapingStopped \<longrightarrow> k < maxScrollAttempts \<and> \<not> stillActive (env k)) \<and>
     (ex = AttemptsExhausted \<longrightarrow> k = maxScrollAttempts) \<and>
     (ex = ScrapingStopped \<or> ex = AttemptsExhausted \<longrightarrow> trailingUnchanged env k < 3) \<and>
     (\<forall>j. a \<le> j \<and> j < k \<longrightarrow> stillActive (env j)) \<and>
     (\<forall>j. a \<le> j \<and> j + 1 < k \<longrightarrow> \<not> paginationReached (env j) \<and> trailingUnchanged env (Suc j) < 3)"

section \<open>Dates\<close>

text \<open>
  A time value is a number of milliseconds since the epoch; a \<^verbatim>\<open>Date\<close> object holds a
  time value of at most 8.64e15 in absolute value, or NaN (an invalid date). The
  functions below are the abstract operations of the ECMAScript specification on
  integers. The offset \<open>tza\<close> of local time from UTC is a parameter and is the same at
  every instant (a time zone without daylight saving changes).
\<close>

datatype jsError = RangeError | OtherError

definition msPerDay :: int where "msPerDay = 86400000"
definition msPerHour :: int where "msPerHour = 3600000"
definition msPerMinute :: int where "msPerMinute = 60000"
definition msPerSecond :: int where "msPerSecond = 1000"

definition Day :: "int \<Rightarrow> int" where "Day t = t div msPerDay"
definition TimeWithinDay :: "int \<Rightarrow> int" where "TimeWithinDay t = t mod msPerDay"

definition DaysInYear :: "int \<Rightarrow> int" where
  "DaysInYear y =
    (if y mod 4 \<noteq> 0 then 365 else if y mod 100 \<noteq> 0 then 366
     else if y mod 400 \<noteq> 0 then 365 else 366)"

definition DayFromYear :: "int \<Rightarrow> int" where
  "DayFromYear y =
    365 * (y - 1970) + (y - 1969) div 4 - (y - 1901) div 100 + (y - 1601) div 400"

lemma DayFromYear_less_next: "DayFromYear y < DayFromYear (y + 1)"
proof -
  define a b c where "a = (y - 1969) div 4" and "b = (y - 1901) div 100"
    and "c = (y - 1601) div 400"
  define a' b' c' where "a' = (y + 1 - 1969) div 4" and "b' = (y + 1 - 1901) div 100"
    and "c' = (y + 1 - 1601) div 400"
  have "a \<le> a'" unfolding a_def a'_def by (rule zdiv_mono1) simp_all
  moreover have "b' \<le> b + 1"
  proof -
    have "(y + 1 - 1901) div 100 \<le> (y - 1901 + 100) div 100" by (rule zdiv_mono1) simp_all
    then show ?thesis unfolding b_def b'_def by simp
  qed
  moreover have "c \<le> c'" unfolding c_def c'_def by (rule zdiv_mono1) simp_all
  moreover have "DayFromYear y = 365 * (y - 1970) + a - b + c"
    unfolding a_def b_def c_def by (simp only: DayFromYear_def)
  moreover have "DayFromYear (y + 1) = 365 * (y + 1 - 1970) + a' - b' + c'"
    unfolding a'_def b'_def c'_def by (simp only: DayFromYear_def)
  ultimately show ?thesis by simp
qed

text \<open>
  \<open>YearFromTime\<close>: the largest year whose first day is not after the day of \<open>t\<close>. The
  search starts from a year that is not after it (a year has at least 365 and at most
  366 days) and goes up.
\<close>

function yearSearch :: "int \<Rightarrow> int \<Rightarrow> int" where
  "yearSearch d y = (if DayFromYear (y + 1) \<le> d then yearSearch d (y + 1) else y)"
  by pat_completeness auto
termination
proof (relation "measure (\<lambda>(d, y). nat (d - DayFromYear y))")
  show "wf (measure (\<lambda>(d, y). nat (d - DayFromYear y)))" by simp
next
  fix d y :: int
  assume "DayFromYear (y + 1) \<le> d"
  moreover have "DayFromYear y < DayFromYear (y + 1)" by (rule DayFromYear_less_next)
  ultimately show "((d, y + 1), (d, y)) \<in> measure (\<lambda>(d, y). nat (d - DayFromYear y))"
    by simp
qed

declare yearSearch.simps [simp del]

definition YearFromTime :: "int \<Rightarrow> int" where
  "YearFromTime t =
    (let d = Day t in yearSearch d (1970 + (if d \<ge> 0 then d div 366 else d div 365)))"

definition InLeapYear :: "int \<Rightarrow> bool" where
  "InLeapYear t \<longleftrightarrow> DaysInYear (YearFromTime t) = 366"

definition DayWithinYear :: "int \<Rightarrow> int" where
  "DayWithinYear t = Day t - DayFromYear (YearFromTime t)"

text \<open>The day within the year on which month \<open>m\<close> (0 to 11) starts.\<close>

definition monthStart :: "int \<Rightarrow> bool \<Rightarrow> int" where
  "monthStart m leap =
    (if m \<le> 0 then 0 else if m = 1 then 31
     else (if m = 2 then 59 else if m = 3 then 90 else if m = 4 then 120
           else if m = 5 then 151 else if m = 6 then 181 else if m = 7 then 212
           else if m = 8 then 243 else if m = 9 then 273 else if m = 10 then 304 else 334)
          + (if leap then 1 else 0))"

definition MonthFromTime :: "int \<Rightarrow> int" where
  "MonthFromTime t =
    (let d = DayWithinYear t; l = InLeapYear t in
     if d < monthStart 1 l then 0 else if d < monthStart 2 l then 1
     else if d < monthStart 3 l then 2 else if d < monthStart 4 l then 3
     else if d < monthStart 5 l then 4 else if d < monthStart 6 l then 5
     else if d < monthStart 7 l then 6 else if d < monthStart 8 l then 7
     else if d < monthStart 9 l then 8 else if d < monthStart 10 l then 9
     else if d < monthStart 11 l then 10 else 11)"

definition DateFromTime :: "int \<Rightarrow> int" where
  "DateFromTime t = DayWithinYear t - monthStart (MonthFromTime t) (InLeapYear t) + 1"

definition HourFromTime :: "int \<Rightarrow> int" where "HourFromTime t = (t div msPerHour) mod 24"
definition MinFromTime :: "int \<Rightarrow> int" where "MinFromTime t = (t div msPerMinute) mod 60"
definition SecFromTime :: "int \<Rightarrow> int" where "SecFromTime t = (t div msPerSecond) mod 60"
definition msFromTime :: "int \<Rightarrow> int" where "msFromTime t = t mod msPerSecond"

definition MakeTime :: "int \<Rightarrow> int \<Rightarrow> int \<Rightarrow> int \<Rightarrow> int" where
  "MakeTime hour minute sec ms = hour * msPerHour + minute * msPerMinute + sec * msPerSecond + ms"

text \<open>
  \<open>MakeDay\<close>: the day number of the first day of the month \<open>month mod 12\<close> of the year
  \<open>year + month div 12\<close>, plus \<open>date - 1\<close>.
\<close>

definition MakeDay :: "int \<Rightarrow> int \<Rightarrow> int \<Rightarrow> int" where
  "MakeDay year month date =
    (let ym = year + month div 12; mn = month mod 12
     in DayFromYear ym + monthStart mn (DaysInYear ym = 366) + date - 1)"

definition MakeDate :: "int \<Rightarrow> int \<Rightarrow> int" where
  "MakeDate day time = day * msPerDay + time"

text \<open>\<open>TimeClip\<close>; \<open>None\<close> is NaN.\<close>

definition TimeClip :: "int \<Rightarrow> int option" where
  "TimeClip t = (if \<bar>t\<bar> > 8640000000000000 then None else Some t)"

definition LocalTime :: "int \<Rightarrow> int \<Rightarrow> int" where "LocalTime tza t = t + tza"
definition UTC :: "int \<Rightarrow> int \<Rightarrow> int" where "UTC tza t = t - tza"

text \<open>
  The methods of \<^verbatim>\<open>Date\<close> that the scraper calls, on an object whose time value
  \<open>tv\<close> is valid; a setter returns the new time value of the object.
\<close>

definition getHours :: "int \<Rightarrow> int \<Rightarrow> int" where
  "getHours tza tv = HourFromTime (LocalTime tza tv)"

definition getDate :: "int \<Rightarrow> int \<Rightarrow> int" where
  "getDate tza tv = DateFromTime (LocalTime tza tv)"

definition getMonth :: "int \<Rightarrow> int \<Rightarrow> int" where
  "getMonth tza tv = MonthFromTime (LocalTime tza tv)"

definition getFullYear :: "int \<Rightarrow> int \<Rightarrow> int" where
  "getFullYear tza tv = YearFromTime (LocalTime tza tv)"

definition setHours :: "int \<Rightarrow> int \<Rightarrow> int \<Rightarrow> int option" where
  "setHours tza tv hour =
    (let t = LocalTime tza tv;
         date = MakeDate (Day t) (MakeTime hour (MinFromTime t) (SecFromTime t) (msFromTime t))
     in TimeClip (UTC tza date))"

definition setDate :: "int \<Rightarrow> int \<Rightarrow> int \<Rightarrow> int option" where
  "setDate tza tv dt =
    (let t = LocalTime tza tv;
         newDate = MakeDate (MakeDay (YearFromTime t) (MonthFromTime t) dt) (TimeWithinDay t)
     in TimeClip (UTC tza newDate))"

definition setMonth :: "int \<Rightarrow> int \<Rightarrow> int \<Rightarrow> int option" where
  "setMonth tza tv m =
    (let t = LocalTime tza tv;
         newDate = MakeDate (MakeDay (YearFromTime t) m (DateFromTime t)) (TimeWithinDay t)
     in TimeClip (UTC tza newDate))"

definition setFullYear :: "int \<Rightarrow> int \<Rightarrow> int \<Rightarrow> int option" where
  "setFullYear tza tv y =
    (let t = LocalTime tza tv;
         newDate = MakeDate (MakeDay y (MonthFromTime t) (DateFromTime t)) (TimeWithinDay t)
     in TimeClip (UTC tza newDate))"

text \<open>Decimal digits of a natural number, and the same padded with zeros to a width.\<close>

fun showNat :: "nat \<Rightarrow> string" where
  "showNat n = (if n < 10 then [char_of (48 + n)] else showNat (n div 10) @ [char_of (48 + n mod 10)])"

declare showNat.simps [simp del]

definition padNat :: "nat \<Rightarrow> nat \<Rightarrow> string" where
  "padNat w n = replicate (w - length (showNat n)) (CHR ''0'') @ showNat n"

text \<open>
  \<^verbatim>\<open>toISOString\<close>: a RangeError for an invalid date, otherwise
  \<^verbatim>\<open>YYYY-MM-DDTHH:mm:ss.sssZ\<close> in UTC, the year with a sign and six digits when it
  is not between 0 and 9999.
\<close>

definition isoYear :: "int \<Rightarrow> string" where
  "isoYear y =
    (if 0 \<le> y \<and> y \<le> 9999 then padNat 4 (nat y)
     else (if y < 0 then ''-'' else ''+'') @ padNat 6 (nat \<bar>y\<bar>))"

definition isoText :: "int \<Rightarrow> string" where
  "isoText t =
    isoYear (YearFromTime t) @ ''-'' @ padNat 2 (nat (MonthFromTime t + 1)) @ ''-'' @
    padNat 2 (nat (DateFromTime t)) @ ''T'' @ padNat 2 (nat (HourFromTime t)) @ '':'' @
    padNat 2 (nat (MinFromTime t)) @ '':'' @ padNat 2 (nat (SecFromTime t)) @ ''.'' @
    padNat 3 (nat (msFromTime t)) @ ''Z''"

definition toISOString :: "int option \<Rightarrow> jsError + string" where
  "toISOString tv = (case tv of None \<Rightarrow> Inl RangeError | Some t \<Rightarrow> Inr (isoText t))"

section \<open>Relative dates\<close>

text \<open>\<^verbatim>\<open>toLowerCase\<close> on the code units below 256.\<close>

definition lowerChar :: "char \<Rightarrow> char" where
  "lowerChar c =
    (let n = of_char c :: nat in
     if (65 \<le> n \<and> n \<le> 90) \<or> (192 \<le> n \<and> n \<le> 222 \<and> n \<noteq> 215) then char_of (n + 32) else c)"

definition toLowerCase :: "string \<Rightarrow> string" where
  "toLowerCase s = map lowerChar s"

text \<open>\<open>stripPrefix p s\<close> is the rest of \<open>s\<close> after the prefix \<open>p\<close>, when \<open>s\<close> starts with it.\<close>

fun stripPrefix :: "string \<Rightarrow> string \<Rightarrow> string option" where
  "stripPrefix [] s = Some s"
| "stripPrefix (p # ps) [] = None"
| "stripPrefix (p # ps) (c # cs) = (if p = c then stripPrefix ps cs else None)"

datatype timeUnit = HourUnit | DayUnit | WeekUnit | MonthUnit | YearUnit

text \<open>
  The regular expression \<^verbatim>\<open>/(\d+)\s*(hour|day|week|month|year)s?\s*ago/\<close>. A match
  that starts at the head of the string: the longest run of digits (at least one), the
  longest run of whitespace, one of the unit words, an \<^verbatim>\<open>s\<close> when there is one,
  the longest run of whitespace, then \<^verbatim>\<open>ago\<close>. Taking the longest run each time
  loses no match: a shorter run leaves a digit, a whitespace character or an
  \<^verbatim>\<open>s\<close> where the next part of the pattern cannot start. The result is the number
  that \<^verbatim>\<open>parseInt\<close> reads from the first group, and the unit of the second.
\<close>

definition matchUnit :: "string \<Rightarrow> (timeUnit \<times> string) option" where
  "matchUnit s =
    (case stripPrefix ''hour'' s of Some r \<Rightarrow> Some (HourUnit, r) | None \<Rightarrow>
    (case stripPrefix ''day'' s of Some r \<Rightarrow> Some (DayUnit, r) | None \<Rightarrow>
    (case stripPrefix ''week'' s of Some r \<Rightarrow> Some (WeekUnit, r) | None \<Rightarrow>
    (case stripPrefix ''month'' s of Some r \<Rightarrow> Some (MonthUnit, r) | None \<Rightarrow>
    (case stripPrefix ''year'' s of Some r \<Rightarrow> Some (YearUnit, r) | None \<Rightarrow> None)))))"

definition matchAgoAt :: "string \<Rightarrow> (int \<times> timeUnit) option" where
  "matchAgoAt s =
    (let ds = takeWhile isDigit s in
     if ds = [] then None
     else (case matchUnit (dropWhile isSpace (dropWhile isDigit s)) of
       None \<Rightarrow> None
     | Some (u, r) \<Rightarrow>
         (let r' = (case r of c # cs \<Rightarrow> if c = CHR ''s'' then cs else r | [] \<Rightarrow> r)
          in (case stripPrefix ''ago'' (dropWhile isSpace r') of
               None \<Rightarrow> None
             | Some rest \<Rightarrow> Some (digitsValue ds, u)))))"

text \<open>\<^verbatim>\<open>s.match(re)\<close>: the match at the leftmost position that has one.\<close>

fun matchAgo :: "string \<Rightarrow> (int \<times> timeUnit) option" where
  "matchAgo [] = None"
| "matchAgo (c # cs) =
     (case matchAgoAt (c # cs) of Some m \<Rightarrow> Some m | None \<Rightarrow> matchAgo cs)"

text \<open>
  \<^verbatim>\<open>convertRelativeDateToISO\<close>, with the clock read \<open>now\<close>. \<open>Inr None\<close> is
  \<^verbatim>\<open>undefined\<close>; \<open>Inl\<close> is an exception that leaves the function.
\<close>

definition convertRelativeDateToISO :: "int \<Rightarrow> int \<Rightarrow> string \<Rightarrow> jsError + string option" where
  "convertRelativeDateToISO tza now relativeDate =
    (if relativeDate = [] then Inr None
     else
       let lowerDate = trim (toLowerCase relativeDate) in
       (case matchAgo lowerDate of
         None \<Rightarrow> Inr None
       | Some (amount, unit) \<Rightarrow>
           let targetDate =
             (case unit of
                HourUnit \<Rightarrow> setHours tza now (getHours tza now - amount)
              | DayUnit \<Rightarrow> setDate tza now (getDate tza now - amount)
              | WeekUnit \<Rightarrow> setDate tza now (getDate tza now - amount * 7)
              | MonthUnit \<Rightarrow> setMonth tza now (getMonth tza now - amount)
              | YearUnit \<Rightarrow> setFullYear tza now (getFullYear tza now - amount))
           in (case toISOString targetDate of
                Inl e \<Rightarrow> Inl e
              | Inr str \<Rightarrow> Inr (Some str))))"




section \<open>Record extraction (content script)\<close>

text \<open>\<^verbatim>\<open>s.replace(/c+/g, ' ')\<close> for one character \<open>c\<close>.\<close>

function replaceRuns :: "char \<Rightarrow> string \<Rightarrow> string" where
  "replaceRuns x [] = []"
| "replaceRuns x (c # cs) =
     (if c = x then SPACE # replaceRuns x (dropWhile (\<lambda>d. d = x) cs)
      else c # replaceRuns x cs)"
  by pat_completeness auto
termination
  by (relation "measure (\<lambda>(x, s). length s)") (auto simp: less_Suc_eq_le length_dropWhile_le)

text \<open>\<^verbatim>\<open>cleanText\<close>: trim, collapse whitespace, newlines, tabs; at most 2000 characters.\<close>

definition cleanText :: "string \<Rightarrow> string" where
  "cleanText text =
    (if text = [] then []
     else take 2000 (replaceRuns (CHR 0x09) (replaceRuns LF (collapseWhitespace (trim text)))))"

text \<open>\<^verbatim>\<open>s.startsWith(p)\<close> and \<^verbatim>\<open>s.includes(p)\<close>.\<close>

definition startsWith :: "string \<Rightarrow> string \<Rightarrow> bool" where
  "startsWith s p \<longleftrightarrow> stripPrefix p s \<noteq> None"

fun includesStr :: "string \<Rightarrow> string \<Rightarrow> bool" where
  "includesStr [] p = (p = [])"
| "includesStr (c # cs) p = (startsWith (c # cs) p \<or> includesStr cs p)"

text \<open>\<^verbatim>\<open>title.replace(/with verification$/, '')\<close>: the suffix is removed when it is there.\<close>

definition removeVerificationSuffix :: "string \<Rightarrow> string" where
  "removeVerificationSuffix s =
    (let k = length ''with verification'' in
     if k \<le> length s \<and> drop (length s - k) s = ''with verification''
     then take (length s - k) s else s)"

text \<open>
  \<^verbatim>\<open>href.match(/\/jobs\/view\/(\d+)/)\<close>: the digits after the leftmost
  \<^verbatim>\<open>/jobs/view/\<close> that is followed by a digit.
\<close>

fun jobIdInHref :: "string \<Rightarrow> string option" where
  "jobIdInHref [] = None"
| "jobIdInHref (c # cs) =
     (case stripPrefix ''/jobs/view/'' (c # cs) of
        Some r \<Rightarrow> if takeWhile isDigit r \<noteq> [] then Some (takeWhile isDigit r) else jobIdInHref cs
      | None \<Rightarrow> jobIdInHref cs)"

text \<open>
  What the extraction reads outside the card: the location of the window, the clock
  (a valid time value) and the offset of local time.
\<close>

record Page =
  windowHref :: string
  clockNow :: int
  clockOffset :: int

text \<open>
  What \<^verbatim>\<open>extractJobDataFromCard\<close> and \<^verbatim>\<open>clickAndExtractJobDetails\<close> read from a
  card: for each selector the text content (or the attribute) of the first element it
  finds, \<open>None\<close> when it finds none. \<open>titleAriaLabel\<close> is the \<^verbatim>\<open>aria-label\<close> of the
  title element, \<open>cardJobId\<close> the value of the expression for \<^verbatim>\<open>dataJobId\<close> (\<open>None\<close>
  for null or undefined), \<open>hasJobLink\<close> whether the card holds a link to click.
\<close>

record Card =
  titleElement :: "string option"
  titleAriaLabel :: "string option"
  companyElement :: "string option"
  locationElement :: "string option"
  linkElement :: "string option"
  postedDateElement :: "string option"
  insightElement :: "string option"
  cardJobId :: "string option"
  hasJobLink :: bool

text \<open>\<^verbatim>\<open>element?.textContent?.trim() || ''\<close>\<close>

definition trimmedText :: "string option \<Rightarrow> string" where
  "trimmedText el = (case el of None \<Rightarrow> [] | Some t \<Rightarrow> trim t)"

text \<open>The title of a card: the trimmed label, else the trimmed and collapsed text, else empty.\<close>

definition cardTitle :: "Card \<Rightarrow> string" where
  "cardTitle jobCard =
    (case titleElement jobCard of
       None \<Rightarrow> []
     | Some text \<Rightarrow>
         (let fromLabel = trimmedText (titleAriaLabel jobCard)
          in if fromLabel \<noteq> [] then fromLabel else collapseWhitespace (trim text)))"

definition cardCleanTitle :: "Card \<Rightarrow> string" where
  "cardCleanTitle jobCard = trim (removeVerificationSuffix (cardTitle jobCard))"

definition cardCompany :: "Card \<Rightarrow> string" where
  "cardCompany jobCard = trimmedText (companyElement jobCard)"

definition cardUrl :: "Page \<Rightarrow> Card \<Rightarrow> string" where
  "cardUrl page jobCard =
    (let fromPage =
           (case jobIdInHref (windowHref page) of
              Some i \<Rightarrow> ''https://www.linkedin.com/jobs/view/'' @ i @ ''/''
            | None \<Rightarrow> windowHref page);
         url =
           (case linkElement jobCard of
              Some href \<Rightarrow> href
            | None \<Rightarrow>
                (case cardJobId jobCard of
                   Some i \<Rightarrow> if i \<noteq> [] then ''https://www.linkedin.com/jobs/view/'' @ i @ ''/''
                             else fromPage
                 | None \<Rightarrow> fromPage))
     in if url = [] \<or> (\<not> includesStr url ''linkedin.com'' \<and> \<not> startsWith url ''https://'')
        then windowHref page else url)"

text \<open>
  \<^verbatim>\<open>extractJobDataFromCard\<close>. \<open>None\<close> is \<^verbatim>\<open>null\<close>: the card has no title or no
  company, or an exception was caught (the date conversion can throw).
\<close>

definition extractJobDataFromCard :: "Page \<Rightarrow> Card \<Rightarrow> JobData option" where
  "extractJobDataFromCard page jobCard =
    (let company = cardCompany jobCard;
         location = trimmedText (locationElement jobCard);
         postedDate = (case postedDateElement jobCard of None \<Rightarrow> [] | Some d \<Rightarrow> d);
         insight = trimmedText (insightElement jobCard);
         url = cardUrl page jobCard;
         cleanTitle = cardCleanTitle jobCard
     in if cleanTitle = [] \<or> company = [] then None
        else (case convertRelativeDateToISO (clockOffset page) (clockNow page) postedDate of
                Inl e \<Rightarrow> None
              | Inr dateISO \<Rightarrow>
                  Some \<lparr>title = cleanTitle, company = company, location = location,
                        description = insight, salary = None, jobType = None, experience = None,
                        workplaceType = None, applicantCount = None, companySize = None,
                        linkedinEmployees = None, industry = None, followers = None,
                        hiringInsights = None, benefits = None, skills = None,
                        companyDescription = None, companyCommitments = None, url = url,
                        postedDate = Some postedDate, postedDateISO = dateISO,
                        scrapedAt = isoText (clockNow page)\<rparr>))"

text \<open>What \<^verbatim>\<open>extractJobDataFromDetailPage\<close> reads from the document of a detail page.\<close>

record DetailPage =
  pageTitleElement :: "string option"
  pageCompanyElement :: "string option"
  pageLocationElement :: "string option"
  pageDescriptionElement :: "string option"
  pageSalaryElement :: "string option"

definition extractJobDataFromDetailPage :: "Page \<Rightarrow> DetailPage \<Rightarrow> JobData option" where
  "extractJobDataFromDetailPage page doc =
    (let title = trimmedText (pageTitleElement doc);
         company = trimmedText (pageCompanyElement doc);
         location = trimmedText (pageLocationElement doc);
         description = trimmedText (pageDescriptionElement doc);
         salary = trimmedText (pageSalaryElement doc)
     in if title = [] \<or> company = [] then None
        else Some \<lparr>title = title, company = company, location = location,
                   description = description, salary = Some salary, jobType = None,
                   experience = None, workplaceType = None, applicantCount = None,
                   companySize = None, linkedinEmployees = None, industry = None,
                   followers = None, hiringInsights = None, benefits = None, skills = None,
                   companyDescription = None, companyCommitments = None,
                   url = windowHref page, postedDate = None, postedDateISO = None,
                   scrapedAt = isoText (clockNow page)\<rparr>)"

text \<open>\<^verbatim>\<open>scrapeJobListings\<close> over the cards found, and \<^verbatim>\<open>scrapeJobDetail\<close>.\<close>

definition scrapeJobListings :: "Page \<Rightarrow> Card list \<Rightarrow> JobData list \<Rightarrow> JobData list" where
  "scrapeJobListings page cards js =
    foldl (\<lambda>acc jobCard. pushIfNew acc (extractJobDataFromCard page jobCard)) js cards"

definition scrapeJobDetail :: "Page \<Rightarrow> DetailPage \<Rightarrow> JobData list \<Rightarrow> JobData list" where
  "scrapeJobDetail page doc js = pushIfNew js (extractJobDataFromDetailPage page doc)"

section \<open>Enrichment from the detail panel\<close>

text \<open>
  What \<^verbatim>\<open>extractDetailedJobInfo\<close> reads from the details container: the text of the
  title and company elements, the texts of the spans of the tertiary description
  (\<open>None\<close>: no such container) and of the buttons of the preferences section. The
  sections after these (description and skills, company, insights, salary) are taken
  as one step \<open>laterSections\<close> on the copy under construction, which returns the copy
  with its fields set or throws.
\<close>

record DetailsPanel =
  panelTitle :: "string option"
  panelCompany :: "string option"
  tertiarySpans :: "string list option"
  preferenceButtons :: "string list option"
  laterSections :: "JobData \<Rightarrow> jsError + JobData"

text \<open>One span of the tertiary description (the body of the \<^verbatim>\<open>forEach\<close>).\<close>

definition tertiarySpan :: "Page \<Rightarrow> string \<Rightarrow> JobData \<Rightarrow> jsError + JobData" where
  "tertiarySpan page spanText enhancedData =
    (let text = trim spanText in
     if text = [] then Inr enhancedData
     else
       (let e1 = (if includesStr text ''Territory'' \<or> includesStr text ''State'' \<or>
                     includesStr text ''City'' \<or>
                     (includesStr text '','' \<and> \<not> includesStr text ''ago'' \<and>
                      \<not> includesStr text ''applicant'')
                  then enhancedData\<lparr>location := cleanText text\<rparr> else enhancedData)
        in (case (if includesStr text ''ago''
                  then (case convertRelativeDateToISO (clockOffset page) (clockNow page) text of
                          Inl err \<Rightarrow> Inl err
                        | Inr dateISO \<Rightarrow>
                            Inr (e1\<lparr>postedDate := Some (cleanText text), postedDateISO := dateISO\<rparr>))
                  else Inr e1) of
              Inl err \<Rightarrow> Inl err
            | Inr e2 \<Rightarrow>
                Inr (if includesStr text ''applicant''
                     then e2\<lparr>applicantCount := Some (cleanText text)\<rparr> else e2))))"

fun tertiarySpansLoop :: "Page \<Rightarrow> string list \<Rightarrow> JobData \<Rightarrow> jsError + JobData" where
  "tertiarySpansLoop page [] enhancedData = Inr enhancedData"
| "tertiarySpansLoop page (s # ss) enhancedData =
     (case tertiarySpan page s enhancedData of
        Inl err \<Rightarrow> Inl err
      | Inr e \<Rightarrow> tertiarySpansLoop page ss e)"

text \<open>One button of the preferences section.\<close>

definition preferenceButton :: "string \<Rightarrow> JobData \<Rightarrow> JobData" where
  "preferenceButton buttonText enhancedData =
    (let text = trim buttonText in
     if text = [] then enhancedData
     else
       (let e1 = (if includesStr text ''On-site'' \<or> includesStr text ''Remote'' \<or>
                     includesStr text ''Hybrid''
                  then enhancedData\<lparr>workplaceType := Some (cleanText text)\<rparr> else enhancedData)
        in if includesStr text ''Full-time'' \<or> includesStr text ''Part-time'' \<or>
              includesStr text ''Contract'' \<or> includesStr text ''Internship''
           then e1\<lparr>jobType := Some (cleanText text)\<rparr> else e1))"

text \<open>
  The body of the \<^verbatim>\<open>try\<close> block of \<^verbatim>\<open>extractDetailedJobInfo\<close> once the container
  is found: it works on \<^verbatim>\<open>enhancedData = { ...basicData }\<close>, a copy of the record.
\<close>

definition enhance :: "Page \<Rightarrow> DetailsPanel \<Rightarrow> JobData \<Rightarrow> jsError + JobData" where
  "enhance page panel basicData =
    (let e0 = basicData;
         e1 = (case panelTitle panel of
                 Some t \<Rightarrow> if trim t \<noteq> [] then e0\<lparr>title := cleanText t\<rparr> else e0
               | None \<Rightarrow> e0);
         e2 = (case panelCompany panel of
                 Some t \<Rightarrow> if trim t \<noteq> [] then e1\<lparr>company := cleanText t\<rparr> else e1
               | None \<Rightarrow> e1)
     in (case (case tertiarySpans panel of
                 None \<Rightarrow> Inr e2
               | Some spans \<Rightarrow> tertiarySpansLoop page spans e2) of
           Inl err \<Rightarrow> Inl err
         | Inr e3 \<Rightarrow>
             (let e4 = (case preferenceButtons panel of
                          None \<Rightarrow> e3
                        | Some buttons \<Rightarrow> foldl (\<lambda>e b. preferenceButton b e) e3 buttons)
              in laterSections panel e4)))"

text \<open>
  \<^verbatim>\<open>extractDetailedJobInfo\<close>: the basic record when there is no details container
  (\<open>None\<close>) or when the body throws, else the enhanced copy.
\<close>

definition extractDetailedJobInfo :: "Page \<Rightarrow> DetailsPanel option \<Rightarrow> JobData \<Rightarrow> JobData" where
  "extractDetailedJobInfo page detailsContainer basicData =
    (case detailsContainer of
       None \<Rightarrow> basicData
     | Some panel \<Rightarrow>
         (case enhance page panel basicData of
            Inl err \<Rightarrow> basicData
          | Inr enhancedData \<Rightarrow> enhancedData))"

text \<open>
  \<^verbatim>\<open>clickAndExtractJobDetails\<close>. \<open>clickFailure\<close> is the exception thrown while the
  card is scrolled into view, clicked and the details are awaited (\<open>None\<close>: none). The
  result is the value of the promise, \<open>None\<close> for \<^verbatim>\<open>null\<close>.
\<close>

definition clickAndExtractJobDetails ::
  "Page \<Rightarrow> Card \<Rightarrow> jsError option \<Rightarrow> DetailsPanel option \<Rightarrow> JobData \<Rightarrow> JobData option" where
  "clickAndExtractJobDetails page jobCard clickFailure detailsContainer basicData =
    (if \<not> hasJobLink jobCard then Some basicData
     else (case clickFailure of
             Some err \<Rightarrow> Some basicData
           | None \<Rightarrow> Some (extractDetailedJobInfo page detailsContainer basicData)))"

text \<open>
  \<^verbatim>\<open>processJobCardDetailed\<close>: the result (\<open>Some True\<close> a new job, \<open>Some False\<close> a
  duplicate, \<open>None\<close> for \<^verbatim>\<open>null\<close>) and the array \<^verbatim>\<open>jobs\<close> after the call.
\<close>

definition processJobCardDetailed ::
  "Page \<Rightarrow> Card \<Rightarrow> jsError option \<Rightarrow> DetailsPanel option \<Rightarrow> JobData list
     \<Rightarrow> bool option \<times> JobData list" where
  "processJobCardDetailed page jobCard clickFailure detailsContainer js =
    (case extractJobDataFromCard page jobCard of
       None \<Rightarrow> (None, js)
     | Some basicJobData \<Rightarrow>
         if isDuplicateJob js basicJobData then (Some False, js)
         else (case clickAndExtractJobDetails page jobCard clickFailure detailsContainer
                      basicJobData of
                 Some detailedJobData \<Rightarrow> (Some True, js @ [detailedJobData])
               | None \<Rightarrow> (None, js)))"

section \<open>Properties of the CSV export\<close>

lemma collapse_space_only:
  "c \<in> set (collapseWhitespace s) \<Longrightarrow> isSpace c \<Longrightarrow> c = SPACE"
  by (induction s rule: collapseWhitespace.induct) (auto split: if_splits)

lemma collapse_subset:
  "c \<in> set (collapseWhitespace s) \<Longrightarrow> c = SPACE \<or> c \<in> set s"
  by (induction s rule: collapseWhitespace.induct) (auto split: if_splits dest: set_dropWhileD)

lemma dropWhile_keeps_nonspace:
  "\<not> isSpace c \<Longrightarrow> c \<in> set (dropWhile isSpace s) \<longleftrightarrow> c \<in> set s"
  by (induction s) auto

lemma collapse_keeps_nonspace:
  "\<not> isSpace c \<Longrightarrow> c \<in> set (collapseWhitespace s) \<longleftrightarrow> c \<in> set s"
  by (induction s rule: collapseWhitespace.induct)
     (auto simp: dropWhile_keeps_nonspace SPACE_def isSpace_def)

lemma trim_keeps_nonspace:
  "\<not> isSpace c \<Longrightarrow> c \<in> set (trim s) \<longleftrightarrow> c \<in> set s"
  by (simp add: trim_def dropWhile_keeps_nonspace)

lemma cleanField_keeps_nonspace:
  "\<not> isSpace c \<Longrightarrow> c \<in> set (cleanField s) \<longleftrightarrow> c \<in> set s"
  by (simp add: cleanField_def collapse_keeps_nonspace trim_keeps_nonspace)

lemma cleanField_space_only:
  "c \<in> set (cleanField s) \<Longrightarrow> isSpace c \<Longrightarrow> c = SPACE"
  by (simp add: cleanField_def collapse_space_only)

lemma LF_space: "isSpace LF" and CR_space: "isSpace CR" and SPACE_space: "isSpace SPACE"
  and COMMA_nonspace: "\<not> isSpace COMMA" and DQUOTE_nonspace: "\<not> isSpace DQUOTE"
  by (simp_all add: isSpace_def LF_def CR_def SPACE_def COMMA_def DQUOTE_def)

lemma cleanField_no_LF: "LF \<notin> set (cleanField s)"
proof
  assume "LF \<in> set (cleanField s)"
  then have "LF = SPACE" by (rule cleanField_space_only) (rule LF_space)
  then show False by (simp add: LF_def SPACE_def)
qed

lemma cleanField_no_CR: "CR \<notin> set (cleanField s)"
proof
  assume "CR \<in> set (cleanField s)"
  then have "CR = SPACE" by (rule cleanField_space_only) (rule CR_space)
  then show False by (simp add: CR_def SPACE_def)
qed

lemma escaped_body_doubleQuotes:
  "rfc4180_escaped_body (doubleQuotes s @ [DQUOTE]) = Some s"
proof (induction s)
  case Nil
  then show ?case by (simp add: doubleQuotes_def)
next
  case (Cons c s)
  show ?case
  proof (cases "c = DQUOTE")
    case True
    then show ?thesis using Cons by (simp add: doubleQuotes_def)
  next
    case False
    obtain d ds where "doubleQuotes s @ [DQUOTE] = d # ds"
      by (cases "doubleQuotes s @ [DQUOTE]") auto
    then show ?thesis using Cons False by (simp add: doubleQuotes_def)
  qed
qed


lemma field_roundtrip_clean:
  "rfc4180_field (escapeCsvField (JStr s)) = Some (cleanField s)"
proof (cases "s = []")
  case True
  then show ?thesis by (simp add: rfc4180_field_def cleanField_def trim_def)
next
  case False
  show ?thesis
  proof (cases "COMMA \<in> set (cleanField s) \<or> DQUOTE \<in> set (cleanField s)")
    case True
    then show ?thesis using False
      by (auto simp: rfc4180_field_def includesChar_def escaped_body_doubleQuotes Let_def)
  next
    case nq: False
    then show ?thesis using False cleanField_no_LF[of s] cleanField_no_CR[of s]
      by (auto simp: rfc4180_field_def includesChar_def Let_def split: list.splits)
  qed
qed

lemma hd_collapse_nonspace:
  "s \<noteq> [] \<Longrightarrow> \<not> isSpace (hd s) \<Longrightarrow> hd (collapseWhitespace s) = hd s"
  by (cases s) auto

lemma collapse_Nil_iff: "collapseWhitespace s = [] \<longleftrightarrow> s = []"
  by (cases s) auto

lemma trim_hd: "trim s \<noteq> [] \<Longrightarrow> \<not> isSpace (hd (trim s))"
proof -
  assume ne: "trim s \<noteq> []"
  let ?d = "dropWhile isSpace s"
  have t: "trim s = rev (dropWhile isSpace (rev ?d))" by (simp add: trim_def)
  have dne: "?d \<noteq> []"
  proof
    assume "?d = []"
    then have "trim s = []" using t by (simp only: rev.simps dropWhile.simps)
    then show False using ne by simp
  qed
  then have h: "\<not> isSpace (hd ?d)" by (rule hd_dropWhile)
  have "\<exists>ys. ?d = trim s @ ys"
  proof -
    have "rev ?d = takeWhile isSpace (rev ?d) @ dropWhile isSpace (rev ?d)" by simp
    then have "?d = rev (dropWhile isSpace (rev ?d)) @ rev (takeWhile isSpace (rev ?d))"
      by (metis rev_append rev_rev_ident)
    then show ?thesis using t by metis
  qed
  then obtain ys where "?d = trim s @ ys" ..
  then have "hd ?d = hd (trim s)" using ne by (metis hd_append2)
  then show ?thesis using h by simp
qed

lemma trim_last: "trim s \<noteq> [] \<Longrightarrow> \<not> isSpace (last (trim s))"
proof -
  assume ne: "trim s \<noteq> []"
  then have "dropWhile isSpace (rev (dropWhile isSpace s)) \<noteq> []" by (simp add: trim_def)
  then have "\<not> isSpace (hd (dropWhile isSpace (rev (dropWhile isSpace s))))" by (rule hd_dropWhile)
  then show ?thesis using ne by (simp add: trim_def last_rev)
qed


lemma collapse_hd_nonspace:
  "t \<noteq> [] \<Longrightarrow> \<not> isSpace (hd t) \<Longrightarrow> collapseWhitespace t = hd t # collapseWhitespace (tl t)"
  by (cases t) auto

lemma collapse_tail_normal:
  "t = [] \<or> \<not> isSpace (last t) \<Longrightarrow>
   (case collapseWhitespace t of [] \<Rightarrow> True
    | d # ds \<Rightarrow> if d = SPACE then ds \<noteq> [] \<and> wsNormal ds else wsNormal (collapseWhitespace t))"
proof (induction t rule: collapseWhitespace.induct)
  case 1
  then show ?case by simp
next
  case (2 c cs)
  show ?case
  proof (cases "isSpace c")
    case True
    let ?dw = "dropWhile isSpace cs"
    from 2(3) True have csne: "cs \<noteq> []" by auto
    with 2(3) have lastcs: "\<not> isSpace (last cs)" by auto
    have dwne: "?dw \<noteq> []"
    proof
      assume "?dw = []"
      then have "\<forall>x\<in>set cs. isSpace x" by simp
      then show False using csne lastcs last_in_set by blast
    qed
    then have hdw: "\<not> isSpace (hd ?dw)" by (rule hd_dropWhile)
    have "cs = takeWhile isSpace cs @ ?dw" by simp
    then have "last cs = last ?dw" using dwne by (metis last_appendR)
    with lastcs have "\<not> isSpace (last ?dw)" by simp
    with 2(1)[OF True] have ih:
      "(case collapseWhitespace ?dw of [] \<Rightarrow> True
        | d # ds \<Rightarrow> if d = SPACE then ds \<noteq> [] \<and> wsNormal ds else wsNormal (collapseWhitespace ?dw))"
      by simp
    have c: "collapseWhitespace ?dw = hd ?dw # collapseWhitespace (tl ?dw)"
      using dwne hdw by (rule collapse_hd_nonspace)
    have "hd ?dw \<noteq> SPACE" using hdw by (auto simp: isSpace_def SPACE_def)
    with ih c have "wsNormal (collapseWhitespace ?dw)" by simp
    moreover have "collapseWhitespace ?dw \<noteq> []" using c by simp
    ultimately show ?thesis using True by simp
  next
    case False
    have "cs = [] \<or> \<not> isSpace (last cs)" using 2(3) by (cases cs) auto
    with 2(2)[OF False] have ih:
      "(case collapseWhitespace cs of [] \<Rightarrow> True
        | d # ds \<Rightarrow> if d = SPACE then ds \<noteq> [] \<and> wsNormal ds else wsNormal (collapseWhitespace cs))"
      by simp
    have "c \<noteq> SPACE" using False by (auto simp: isSpace_def SPACE_def)
    then show ?thesis using False ih by simp
  qed
qed

lemma wsNormal_cleanField: "wsNormal (cleanField s)"
proof (cases "trim s = []")
  case True
  then show ?thesis by (simp add: cleanField_def)
next
  case False
  then have h: "\<not> isSpace (hd (trim s))" and l: "\<not> isSpace (last (trim s))"
    by (rule trim_hd, rule trim_last)
  have c: "collapseWhitespace (trim s) = hd (trim s) # collapseWhitespace (tl (trim s))"
    using False h by (rule collapse_hd_nonspace)
  have "hd (trim s) \<noteq> SPACE" using h by (auto simp: isSpace_def SPACE_def)
  with collapse_tail_normal[of "trim s"] l c show ?thesis
    by (simp add: cleanField_def)
qed





lemma wsNormal_last: "wsNormal s \<Longrightarrow> s \<noteq> [] \<Longrightarrow> \<not> isSpace (last s)"
proof (induction s rule: wsNormal.induct)
  case 1
  then show ?case by simp
next
  case (2 c cs)
  show ?case
  proof (cases cs)
    case Nil
    then show ?thesis using 2(3) by simp
  next
    case (Cons d ds)
    show ?thesis
    proof (cases "d = SPACE")
      case True
      with 2(3) Cons have "ds \<noteq> []" and "wsNormal ds" by simp_all
      with 2(1)[OF Cons True] have "\<not> isSpace (last ds)" by simp
      then show ?thesis using Cons \<open>ds \<noteq> []\<close> by simp
    next
      case False
      with 2(3) Cons have "wsNormal cs" by simp
      with 2(2)[OF Cons False] Cons have "\<not> isSpace (last cs)" by simp
      then show ?thesis using Cons by simp
    qed
  qed
qed

lemma wsNormal_collapse: "wsNormal s \<Longrightarrow> collapseWhitespace s = s"
proof (induction s rule: wsNormal.induct)
  case 1
  then show ?case by simp
next
  case (2 c cs)
  from 2(3) have c: "\<not> isSpace c" by simp
  show ?case
  proof (cases cs)
    case Nil
    then show ?thesis using c by simp
  next
    case (Cons d ds)
    show ?thesis
    proof (cases "d = SPACE")
      case True
      with 2(3) Cons have ne: "ds \<noteq> []" and n: "wsNormal ds" by simp_all
      from 2(1)[OF Cons True n] have ih: "collapseWhitespace ds = ds" .
      from ne n have "\<not> isSpace (hd ds)" by (cases ds) simp_all
      then have "dropWhile isSpace ds = ds" using ne by (cases ds) simp_all
      then show ?thesis using c Cons True ih by (simp add: SPACE_space)
    next
      case False
      with 2(3) Cons have "wsNormal cs" by simp
      from 2(2)[OF Cons False this] show ?thesis using c by simp
    qed
  qed
qed

lemma wsNormal_trim: "wsNormal s \<Longrightarrow> trim s = s"
proof (cases s)
  case Nil
  then show ?thesis by (simp add: trim_def)
next
  case (Cons c cs)
  assume n: "wsNormal s"
  with Cons have "\<not> isSpace c" by simp
  then have d: "dropWhile isSpace s = s" using Cons by simp
  have "\<not> isSpace (last s)" using n Cons by (intro wsNormal_last) auto
  then have "\<not> isSpace (hd (rev s))" by (simp add: hd_rev)
  then have "dropWhile isSpace (rev s) = rev s" by (cases "rev s") simp_all
  then show ?thesis using d by (simp add: trim_def)
qed

lemma cleanField_fixed_iff: "cleanField s = s \<longleftrightarrow> wsNormal s"
proof
  assume "cleanField s = s"
  then show "wsNormal s" using wsNormal_cleanField[of s] by simp
next
  assume "wsNormal s"
  then show "cleanField s = s" by (simp add: cleanField_def wsNormal_trim wsNormal_collapse)
qed













text \<open>
  Claim C4, as the code has it. The quoting decision is taken on the cleaned field, and
  cleaning leaves commas and quotes alone, so a field is quoted (wrapped in quotes, its
  quotes doubled) exactly when it holds a comma or a quote; a line feed never makes a
  field quoted, since cleaning has turned it into a space. Reading the escaped field back
  by RFC 4180 gives the cleaned field, which is the original string exactly when the
  original is already in the form \<^const>\<open>wsNormal\<close>.
\<close>

theorem csv_field_roundtrip_up_to_cleaning:
  "escapeCsvField (JStr s) =
     (if includesChar s COMMA \<or> includesChar s DQUOTE
      then [DQUOTE] @ doubleQuotes (cleanField s) @ [DQUOTE] else cleanField s) \<and>
   rfc4180_field (escapeCsvField (JStr s)) = Some (cleanField s) \<and>
   (rfc4180_field (escapeCsvField (JStr s)) = Some s \<longleftrightarrow> wsNormal s)"
proof -
  have c: "includesChar (cleanField s) COMMA \<longleftrightarrow> includesChar s COMMA"
    by (simp add: includesChar_def cleanField_keeps_nonspace COMMA_nonspace)
  have q: "includesChar (cleanField s) DQUOTE \<longleftrightarrow> includesChar s DQUOTE"
    by (simp add: includesChar_def cleanField_keeps_nonspace DQUOTE_nonspace)
  have e: "escapeCsvField (JStr s) =
     (if includesChar s COMMA \<or> includesChar s DQUOTE
      then [DQUOTE] @ doubleQuotes (cleanField s) @ [DQUOTE] else cleanField s)"
  proof (cases "s = []")
    case True
    then show ?thesis by (simp add: cleanField_def trim_def includesChar_def)
  next
    case False
    then show ?thesis
      using cleanField_no_LF[of s] cleanField_no_CR[of s] c q
      by (simp add: Let_def includesChar_def)
  qed
  show ?thesis using e field_roundtrip_clean[of s] cleanField_fixed_iff[of s] by simp
qed

theorem csv_field_roundtrip_up_to_cleaning_witness:
  "escapeCsvField (JStr (''say '' @ [DQUOTE] @ ''hi'' @ [DQUOTE] @ '', ok''))
     = [DQUOTE] @ ''say '' @ [DQUOTE, DQUOTE] @ ''hi'' @ [DQUOTE, DQUOTE] @ '', ok'' @ [DQUOTE] \<and>
   rfc4180_field (escapeCsvField (JStr (''say '' @ [DQUOTE] @ ''hi'' @ [DQUOTE] @ '', ok'')))
     = Some (''say '' @ [DQUOTE] @ ''hi'' @ [DQUOTE] @ '', ok'')"
  using csv_field_roundtrip_up_to_cleaning [of "''say '' @ [DQUOTE] @ ''hi'' @ [DQUOTE] @ '', ok''"]
  by (simp add: cleanField_def trim_def isSpace_def includesChar_def doubleQuotes_def
      LF_def CR_def SPACE_def COMMA_def DQUOTE_def)

text \<open>
  The claim as stated fails: a description with a comma, a quote and a line feed does
  not come back (the line feed has become a space), and a field whose only special
  character is a line feed is not quoted.
\<close>

theorem csv_field_roundtrip_counterexample:
  "rfc4180_field (escapeCsvField (JStr (''x,'' @ [DQUOTE, LF] @ ''y'')))
     = Some (''x,'' @ [DQUOTE] @ '' y'') \<and>
   rfc4180_field (escapeCsvField (JStr (''x,'' @ [DQUOTE, LF] @ ''y'')))
     \<noteq> Some (''x,'' @ [DQUOTE, LF] @ ''y'') \<and>
   includesChar (''a'' @ [LF] @ ''b'') LF \<and>
   escapeCsvField (JStr (''a'' @ [LF] @ ''b'')) = ''a b''"
  by (simp add: rfc4180_field_def cleanField_def trim_def isSpace_def includesChar_def
      doubleQuotes_def LF_def CR_def SPACE_def COMMA_def DQUOTE_def)

section \<open>Properties of duplicate detection\<close>

lemma isDuplicateJob_iff:
  "isDuplicateJob js j \<longleftrightarrow> identityKey j \<in> identityKey ` set js"
proof
  assume "isDuplicateJob js j"
  then obtain job where "job \<in> set js" and "identityKey job = identityKey j"
    unfolding isDuplicateJob_def identityKey_def list_ex_iff by blast
  then show "identityKey j \<in> identityKey ` set js" by (metis imageI)
next
  assume "identityKey j \<in> identityKey ` set js"
  then obtain job where "job \<in> set js" and "identityKey j = identityKey job" by blast
  then show "isDuplicateJob js j"
    unfolding isDuplicateJob_def identityKey_def list_ex_iff by auto
qed

lemma pushIfNew_duplicate_unchanged:
  "isDuplicateJob js j \<Longrightarrow> pushIfNew js (Some j) = js"
  by (simp add: pushIfNew_def)

lemma pushIfNew_keeps_distinct:
  "distinct (map identityKey js) \<Longrightarrow> distinct (map identityKey (pushIfNew js jd))"
  by (auto simp: pushIfNew_def isDuplicateJob_iff split: option.splits)

lemma handleSaveJobs_duplicates_unchanged:
  "list_all (isDuplicateJob scrapedJobs) new \<Longrightarrow> handleSaveJobs scrapedJobs (Some new) = scrapedJobs"
proof -
  assume a: "list_all (isDuplicateJob scrapedJobs) new"
  have "filter (\<lambda>n. \<not> isDuplicateJob scrapedJobs n) new = []"
    using a by (auto simp: list_all_iff filter_empty_conv)
  then show ?thesis by (simp add: handleSaveJobs_def isDuplicateJob_def)
qed

lemma handleSaveJobs_keeps_distinct:
  assumes "distinct (map identityKey scrapedJobs)" and "distinct (map identityKey new)"
  shows "distinct (map identityKey (handleSaveJobs scrapedJobs (Some new)))"
proof -
  let ?add = "filter (\<lambda>n. \<not> isDuplicateJob scrapedJobs n) new"
  have h: "handleSaveJobs scrapedJobs (Some new) = scrapedJobs @ ?add"
    by (simp add: handleSaveJobs_def isDuplicateJob_def)
  have "distinct (map identityKey ?add)" using assms(2) by (rule distinct_map_filter)
  moreover have "identityKey ` set scrapedJobs \<inter> identityKey ` set ?add = {}"
    by (auto simp: isDuplicateJob_iff)
  ultimately show ?thesis using assms(1) h by simp
qed

text \<open>
  Claim C1, on the code. A SAVE_JOBS batch that holds the same record twice is stored
  twice: \<^verbatim>\<open>handleSaveJobs\<close> compares a new job with the jobs stored before the
  call only, not with the jobs of the same batch.
\<close>

theorem handleSaveJobs_stores_batch_duplicates:
  "length (handleSaveJobs []
     (Some [\<lparr>title = ''Engineer'', company = ''Acme'', location = '''', description = '''',
             salary = None, jobType = None, experience = None, workplaceType = None,
             applicantCount = None, companySize = None, linkedinEmployees = None,
             industry = None, followers = None, hiringInsights = None, benefits = None,
             skills = None, companyDescription = None, companyCommitments = None,
             url = ''https://www.linkedin.com/jobs/view/1/'', postedDate = None,
             postedDateISO = None, scrapedAt = ''2025-01-01T00:00:00.000Z''\<rparr>,
            \<lparr>title = ''Engineer'', company = ''Acme'', location = ''Berlin'', description = '''',
             salary = None, jobType = None, experience = None, workplaceType = None,
             applicantCount = None, companySize = None, linkedinEmployees = None,
             industry = None, followers = None, hiringInsights = None, benefits = None,
             skills = None, companyDescription = None, companyCommitments = None,
             url = ''https://www.linkedin.com/jobs/view/1/'', postedDate = None,
             postedDateISO = None, scrapedAt = ''2025-01-01T00:00:05.000Z''\<rparr>])) = 2"
  by (simp add: handleSaveJobs_def)

section \<open>Properties of the command bus\<close>

definition backgroundActions :: "string list" where
  "backgroundActions = [''SAVE_JOBS'', ''GET_ALL_JOBS'', ''EXPORT_CSV'', ''CLEAR_JOBS'']"

definition contentActions :: "string list" where
  "contentActions = [''START_SCRAPING'', ''STOP_SCRAPING'', ''GET_SCRAPED_JOBS'']"

text \<open>
  Claim C8, on the code. For an action that a listener does not recognize, the content
  script answers \<^verbatim>\<open>{success: false, error: 'Unknown action'}\<close> and the background
  script answers \<^verbatim>\<open>{error: 'Unknown action'}\<close>, an object with no \<^verbatim>\<open>success\<close>
  property; both leave their state as it was.
\<close>

theorem unknown_action_responses:
  "(action msg \<notin> set contentActions \<longrightarrow>
      contentOnMessage failure s msg =
        (\<lparr>success = Some False, error = Some ''Unknown action'', jobCount = None, jobsOut = None\<rparr>, s)) \<and>
   (action msg \<notin> set backgroundActions \<longrightarrow>
      backgroundOnMessage failure scrapedJobs msg =
        (\<lparr>success = None, error = Some ''Unknown action'', jobCount = None, jobsOut = None\<rparr>,
         scrapedJobs))"
  by (simp add: contentOnMessage_def backgroundOnMessage_def contentActions_def
      backgroundActions_def emptyResponse_def)

theorem unknown_action_responses_witness:
  "contentOnMessage None \<lparr>jobs = [], isScrapingActive = False\<rparr>
      \<lparr>action = ''PING'', payload = None\<rparr> =
     (\<lparr>success = Some False, error = Some ''Unknown action'', jobCount = None, jobsOut = None\<rparr>,
      \<lparr>jobs = [], isScrapingActive = False\<rparr>) \<and>
   backgroundOnMessage None [] \<lparr>action = ''PING'', payload = None\<rparr> =
     (\<lparr>success = None, error = Some ''Unknown action'', jobCount = None, jobsOut = None\<rparr>, [])"
  using unknown_action_responses
    [of "\<lparr>action = ''PING'', payload = None\<rparr>" None
        "\<lparr>jobs = [], isScrapingActive = False\<rparr>" "[]"]
  by (simp add: contentActions_def backgroundActions_def)

section \<open>Properties of pagination\<close>






section \<open>Properties of the page loop\<close>

lemma lowYieldCounter_snoc:
  "lowYieldCounter c (ys @ [y]) = (if y < 5 then lowYieldCounter c ys + 1 else 0)"
  by (simp add: lowYieldCounter_def)

lemma lowYieldCounter_Cons:
  "lowYieldCounter c (y # ys) = lowYieldCounter (if y < 5 then c + 1 else 0) ys"
  by (simp add: lowYieldCounter_def)

lemma trailingLowYield_snoc:
  "trailingLowYield (ys @ [y]) = (if y < 5 then trailingLowYield ys + 1 else 0)"
  by (simp add: trailingLowYield_def)

lemma lowYieldCounter_trailing: "lowYieldCounter 0 ys = trailingLowYield ys"
  by (induction ys rule: rev_induct)
     (simp_all add: lowYieldCounter_snoc trailingLowYield_snoc, simp add: lowYieldCounter_def trailingLowYield_def)

lemma pageYields_Suc: "m \<le> n \<Longrightarrow> pageYields env m (Suc n) = pageYields env m n @ [newJobsThisPage (env n)]"
  by (simp add: pageYields_def)

lemma pageYields_step: "m < n \<Longrightarrow> pageYields env m n = newJobsThisPage (env m) # pageYields env (Suc m) n"
  by (simp add: pageYields_def upt_conv_Cons)

lemma pageYields_self: "pageYields env m m = []"
  by (simp add: pageYields_def)

lemma pageLoop_false:
  "\<not> (page \<le> lastPage \<and> active) \<Longrightarrow>
   pageLoop env lastPage page c active m = (LoopConditionFalse, m, c)"
  by (subst pageLoop.simps) auto

lemma pageLoop_abort:
  "page \<le> lastPage \<Longrightarrow> active \<Longrightarrow> newJobsThisPage (env m) < 5 \<Longrightarrow> 3 \<le> c + 1 \<Longrightarrow>
   pageLoop env lastPage page c active m = (LowYieldAbort, m + 1, c + 1)"
  by (subst pageLoop.simps) (simp add: Let_def MAX_LOW_YIELD_PAGES_def)

lemma pageLoop_continue:
  "page \<le> lastPage \<Longrightarrow> active \<Longrightarrow>
   c1 = (if newJobsThisPage (env m) < 5 then c + 1 else 0) \<Longrightarrow> c1 < 3 \<Longrightarrow>
   pageLoop env lastPage page c active m =
     (if page < lastPage \<and> activeAfterScrape (env m) then
        (if \<not> navigated (env m) then (NavigationFailed, m + 1, c1)
         else pageLoop env lastPage (page + 1) c1 (activeAtLoopTop (env m)) (m + 1))
      else (NoNextPage, m + 1, c1))"
  by (subst pageLoop.simps) (simp add: Let_def MAX_LOW_YIELD_PAGES_def)

lemma lowYieldCounter_Nil: "lowYieldCounter c [] = c"
  by (simp add: lowYieldCounter_def)

lemma pageLoop_invariant:
  "pageLoop env lastPage page c active m = (ex, n, c') \<Longrightarrow> c < 3 \<Longrightarrow>
     m \<le> n \<and>
     c' = lowYieldCounter c (pageYields env m n) \<and>
     (ex = LowYieldAbort \<longleftrightarrow> c' = 3) \<and> c' \<le> 3 \<and>
     (\<forall>k. m \<le> k \<and> k < n \<longrightarrow> lowYieldCounter c (pageYields env m k) < 3)"
proof (induction env lastPage page c active m arbitrary: ex n c' rule: pageLoop.induct)
  case (1 env lastPage page lowYield active m)
  note res = 1(2) and lt = 1(3)
  let ?c = "if newJobsThisPage (env m) < 5 then lowYield + 1 else 0"
  have one: "lowYieldCounter lowYield (pageYields env m (Suc m)) = ?c"
    by (simp add: pageYields_def lowYieldCounter_def)
  have first: "\<forall>k. m \<le> k \<and> k < Suc m \<longrightarrow> lowYieldCounter lowYield (pageYields env m k) < 3"
    using lt by (auto simp: le_less_Suc_eq pageYields_self lowYieldCounter_Nil)
  show ?case
  proof (cases "page \<le> lastPage \<and> active")
    case False
    from res pageLoop_false[OF False, of env lowYield m]
    have "ex = LoopConditionFalse" "n = m" "c' = lowYield" by simp_all
    then show ?thesis using lt by (simp add: pageYields_self lowYieldCounter_Nil)
  next
    case True
    then have pl: "page \<le> lastPage" and act: "active" by simp_all
    show ?thesis
    proof (cases "newJobsThisPage (env m) < 5 \<and> 3 \<le> lowYield + 1")
      case abort: True
      from res pageLoop_abort[OF pl act, of env m lowYield] abort
      have r: "ex = LowYieldAbort" "n = Suc m" "c' = lowYield + 1" by simp_all
      have "lowYield + 1 = 3" using abort lt by simp
      then show ?thesis using r one first abort by simp
    next
      case noabort: False
      have clt: "?c < 3" using noabort lt by auto
      have step: "pageLoop env lastPage page lowYield active m =
         (if page < lastPage \<and> activeAfterScrape (env m) then
            (if \<not> navigated (env m) then (NavigationFailed, m + 1, ?c)
             else pageLoop env lastPage (page + 1) ?c (activeAtLoopTop (env m)) (m + 1))
          else (NoNextPage, m + 1, ?c))"
        using pl act _ clt by (rule pageLoop_continue) simp
      show ?thesis
      proof (cases "page < lastPage \<and> activeAfterScrape (env m)")
        case False
        from res step False have r: "ex = NoNextPage" "n = Suc m" "c' = ?c" by simp_all
        show ?thesis using r one first clt by simp
      next
        case next': True
        show ?thesis
        proof (cases "navigated (env m)")
          case False
          from res step next' False have r: "ex = NavigationFailed" "n = Suc m" "c' = ?c"
            by simp_all
          show ?thesis using r one first clt by simp
        next
          case nav: True
          have rec: "pageLoop env lastPage (page + 1) ?c (activeAtLoopTop (env m)) (m + 1) = (ex, n, c')"
            using res step next' nav by simp
          have nab: "\<not> (newJobsThisPage (env m) < 5 \<and> MAX_LOW_YIELD_PAGES \<le> ?c)"
            using clt by (simp add: MAX_LOW_YIELD_PAGES_def)
          have ih: "m + 1 \<le> n \<and>
                c' = lowYieldCounter ?c (pageYields env (m + 1) n) \<and>
                (ex = LowYieldAbort \<longleftrightarrow> c' = 3) \<and> c' \<le> 3 \<and>
                (\<forall>k. m + 1 \<le> k \<and> k < n \<longrightarrow> lowYieldCounter ?c (pageYields env (m + 1) k) < 3)"
            by (rule 1(1)[OF True refl refl nab next' _ rec clt]) (simp add: nav)
          then have mn: "m < n" by simp
          have y: "\<And>k. m < k \<Longrightarrow> lowYieldCounter lowYield (pageYields env m k)
                    = lowYieldCounter ?c (pageYields env (Suc m) k)"
            by (simp add: pageYields_step lowYieldCounter_Cons)
          have "\<forall>k. m \<le> k \<and> k < n \<longrightarrow> lowYieldCounter lowYield (pageYields env m k) < 3"
          proof (intro allI impI)
            fix k assume k: "m \<le> k \<and> k < n"
            show "lowYieldCounter lowYield (pageYields env m k) < 3"
            proof (cases "k = m")
              case True
              then show ?thesis using lt by (simp add: pageYields_self lowYieldCounter_Nil)
            next
              case False
              with k have "m < k" by simp
              then show ?thesis using y[of k] ih k by simp
            qed
          qed
          then show ?thesis using ih y[OF mn] by simp
        qed
      qed
    qed
  qed
qed


lemma trailing_ge3:
  assumes "3 \<le> trailingLowYield ys"
  shows "3 \<le> length ys \<and> ys ! (length ys - 1) < 5 \<and> ys ! (length ys - 2) < 5 \<and>
         ys ! (length ys - 3) < 5"
proof -
  let ?ts = "takeWhile (\<lambda>y. y < 5) (rev ys)"
  have l: "3 \<le> length ?ts" using assms by (simp add: trailingLowYield_def)
  have "length ?ts \<le> length (rev ys)" by (rule length_takeWhile_le)
  then have ly: "3 \<le> length ys" using l by simp
  have nth: "ys ! (length ys - Suc i) < 5" if "i < 3" for i
  proof -
    from that l have il: "i < length ?ts" by simp
    then have "?ts ! i \<in> set ?ts" by (rule nth_mem)
    then have "?ts ! i < 5" by (auto dest: set_takeWhileD)
    moreover have "?ts ! i = rev ys ! i" using il by (rule takeWhile_nth)
    moreover have "rev ys ! i = ys ! (length ys - Suc i)" using that ly by (simp add: rev_nth)
    ultimately show ?thesis by simp
  qed
  have "ys ! (length ys - Suc 0) < 5" "ys ! (length ys - Suc 1) < 5" "ys ! (length ys - Suc 2) < 5"
    by (rule nth, simp)+
  then show ?thesis using ly by (simp add: numeral_3_eq_3 numeral_2_eq_2)
qed

lemma trailing_three_low:
  "a < 5 \<Longrightarrow> b < 5 \<Longrightarrow> c < 5 \<Longrightarrow> 3 \<le> trailingLowYield (us @ [a, b, c])"
  by (simp add: trailingLowYield_def)

lemma pageYields_nth: "i < n \<Longrightarrow> pageYields env 0 n ! i = newJobsThisPage (env i)"
  by (simp add: pageYields_def)

lemma pageYields_length: "length (pageYields env 0 n) = n"
  by (simp add: pageYields_def)

lemma pageYields_three:
  "pageYields env 0 (k + 3)
   = pageYields env 0 k @ [newJobsThisPage (env k), newJobsThisPage (env (k + 1)),
                           newJobsThisPage (env (k + 2))]"
  by (simp add: pageYields_def numeral_3_eq_3)

text \<open>
  Claim C3. The counter \<^verbatim>\<open>consecutiveLowYieldPages\<close> is, when the page loop ends,
  the number of consecutive low-yield pages (fewer than 5 new jobs) at the end of the
  pages scraped: a low-yield page adds one, any other page resets it to 0. The loop
  ends by the low-yield abort exactly when the counter is 3. Before the last page the
  count was below 3; an abort means that the last three pages were low-yield; and three
  consecutive low-yield pages among the pages scraped are the last three, with the run
  aborted.
\<close>

theorem low_yield_abort:
  assumes "scrapeAllPages env paginationInfo active = (ex, n, c)"
  shows "c = trailingLowYield (pageYields env 0 n) \<and>
     (ex = LowYieldAbort \<longleftrightarrow> c = MAX_LOW_YIELD_PAGES) \<and>
     (\<forall>k<n. trailingLowYield (pageYields env 0 k) < MAX_LOW_YIELD_PAGES) \<and>
     (ex = LowYieldAbort \<longrightarrow>
        3 \<le> n \<and> newJobsThisPage (env (n - 1)) < 5 \<and> newJobsThisPage (env (n - 2)) < 5 \<and>
        newJobsThisPage (env (n - 3)) < 5) \<and>
     (\<forall>k. k + 2 < n \<and> newJobsThisPage (env k) < 5 \<and> newJobsThisPage (env (k + 1)) < 5 \<and>
          newJobsThisPage (env (k + 2)) < 5 \<longrightarrow> n = k + 3 \<and> ex = LowYieldAbort)"
proof -
  have inv: "0 \<le> n \<and> c = lowYieldCounter 0 (pageYields env 0 n) \<and>
     (ex = LowYieldAbort \<longleftrightarrow> c = 3) \<and> c \<le> 3 \<and>
     (\<forall>k. 0 \<le> k \<and> k < n \<longrightarrow> lowYieldCounter 0 (pageYields env 0 k) < 3)"
  proof (cases "currentPage paginationInfo")
    case None
    with assms have "ex = LoopConditionFalse" "n = 0" "c = 0"
      by (simp_all add: scrapeAllPages_def)
    then show ?thesis by (simp add: pageYields_self lowYieldCounter_Nil)
  next
    case (Some cp)
    with assms have "pageLoop env (totalPages paginationInfo) cp 0 active 0 = (ex, n, c)"
      by (simp add: scrapeAllPages_def)
    then show ?thesis by (rule pageLoop_invariant) simp
  qed
  then have c: "c = trailingLowYield (pageYields env 0 n)"
    and ab: "ex = LowYieldAbort \<longleftrightarrow> c = 3" and c3: "c \<le> 3"
    and pre: "\<forall>k<n. trailingLowYield (pageYields env 0 k) < 3"
    by (simp_all add: lowYieldCounter_trailing)
  have last3: "3 \<le> n \<and> newJobsThisPage (env (n - 1)) < 5 \<and> newJobsThisPage (env (n - 2)) < 5 \<and>
        newJobsThisPage (env (n - 3)) < 5" if "ex = LowYieldAbort"
  proof -
    from that ab c have "3 \<le> trailingLowYield (pageYields env 0 n)" by simp
    from trailing_ge3[OF this] have n3: "3 \<le> n"
      and "pageYields env 0 n ! (n - 1) < 5" and "pageYields env 0 n ! (n - 2) < 5"
      and "pageYields env 0 n ! (n - 3) < 5"
      by (simp_all add: pageYields_length)
    then show ?thesis by (simp add: pageYields_nth)
  qed
  have three: "n = k + 3 \<and> ex = LowYieldAbort"
    if "k + 2 < n \<and> newJobsThisPage (env k) < 5 \<and> newJobsThisPage (env (k + 1)) < 5 \<and>
          newJobsThisPage (env (k + 2)) < 5" for k
  proof -
    have t: "3 \<le> trailingLowYield (pageYields env 0 (k + 3))"
      unfolding pageYields_three using that by (intro trailing_three_low) simp_all
    have "\<not> k + 3 < n" using pre t by auto
    with that have n: "n = k + 3" by simp
    with t c c3 ab show ?thesis by simp
  qed
  show ?thesis using c ab pre last3 three by (simp add: MAX_LOW_YIELD_PAGES_def)
qed

theorem low_yield_abort_witness:
  "scrapeAllPages
     (\<lambda>k. \<lparr>newJobsThisPage = (if k = 0 then 25 else 2), activeAfterScrape = True,
            navigated = True, activeAtLoopTop = True\<rparr>)
     (getPaginationInfo (Some 137) None None) True = (LowYieldAbort, 4, 3) \<and>
   trailingLowYield [25, 2, 2, 2] = 3 \<and> trailingLowYield [25, 2, 2] < 3"
proof -
  let ?env = "\<lambda>k::nat. \<lparr>newJobsThisPage = (if k = 0 then 25 else 2), activeAfterScrape = True,
            navigated = True, activeAtLoopTop = True\<rparr>"
  have e: "scrapeAllPages ?env (getPaginationInfo (Some 137) None None) True
           = (LowYieldAbort, 4, 3)"
    by code_simp
  have y: "pageYields ?env 0 4 = [25, 2, 2, 2]" by code_simp
  show ?thesis using low_yield_abort[OF e] e y by (simp add: trailingLowYield_def)
qed

section \<open>Properties of the scroll loop\<close>

lemma scrollLoop_stop:
  "\<not> (a < maxScrollAttempts \<and> stillActive (env a)) \<Longrightarrow>
   scrollLoop env prev st a = (if a < maxScrollAttempts then ScrapingStopped else AttemptsExhausted, a)"
  by (subst scrollLoop.simps) auto

lemma scrollLoop_pagination:
  "a < maxScrollAttempts \<Longrightarrow> stillActive (env a) \<Longrightarrow> paginationReached (env a) \<Longrightarrow>
   scrollLoop env prev st a = (ReachedPagination, a + 1)"
  by (subst scrollLoop.simps) (simp add: Let_def)

lemma scrollLoop_stable:
  "a < maxScrollAttempts \<Longrightarrow> stillActive (env a) \<Longrightarrow> \<not> paginationReached (env a) \<Longrightarrow>
   cardCount (env a) = prev \<Longrightarrow> 3 \<le> st + 1 \<Longrightarrow>
   scrollLoop env prev st a = (CountStabilized, a + 1)"
  by (subst scrollLoop.simps) (simp add: Let_def)

lemma scrollLoop_same:
  "a < maxScrollAttempts \<Longrightarrow> stillActive (env a) \<Longrightarrow> \<not> paginationReached (env a) \<Longrightarrow>
   cardCount (env a) = prev \<Longrightarrow> \<not> 3 \<le> st + 1 \<Longrightarrow>
   scrollLoop env prev st a = scrollLoop env (cardCount (env a)) (st + 1) (a + 1)"
  by (subst scrollLoop.simps) (simp add: Let_def)

lemma scrollLoop_changed:
  "a < maxScrollAttempts \<Longrightarrow> stillActive (env a) \<Longrightarrow> \<not> paginationReached (env a) \<Longrightarrow>
   cardCount (env a) \<noteq> prev \<Longrightarrow>
   scrollLoop env prev st a = scrollLoop env (cardCount (env a)) 0 (a + 1)"
  by (subst scrollLoop.simps) (simp add: Let_def)

lemma unchangedRead_iff:
  "prev = (if a = 0 then 0 else cardCount (env (a - 1))) \<Longrightarrow>
   unchangedRead env a \<longleftrightarrow> cardCount (env a) = prev"
  by (simp add: unchangedRead_def)

lemma scrollInv_step:
  assumes ih: "scrollInv env ex k (a + 1)" and act: "stillActive (env a)"
    and here: "\<not> paginationReached (env a) \<and> trailingUnchanged env (Suc a) < 3"
  shows "scrollInv env ex k a"
proof -
  from ih have k1: "a + 1 \<le> k" and k2: "k \<le> maxScrollAttempts"
    and cs: "ex = CountStabilized \<longrightarrow> a + 1 < k \<and> trailingUnchanged env k = 3 \<and>
        \<not> paginationReached (env (k - 1))"
    and rp: "ex = ReachedPagination \<longrightarrow> a + 1 < k \<and> paginationReached (env (k - 1))"
    and ss: "ex = ScrapingStopped \<longrightarrow> k < maxScrollAttempts \<and> \<not> stillActive (env k)"
    and ae: "ex = AttemptsExhausted \<longrightarrow> k = maxScrollAttempts"
    and tu: "ex = ScrapingStopped \<or> ex = AttemptsExhausted \<longrightarrow> trailingUnchanged env k < 3"
    and al: "\<forall>j. a + 1 \<le> j \<and> j < k \<longrightarrow> stillActive (env j)"
    and pl: "\<forall>j. a + 1 \<le> j \<and> j + 1 < k \<longrightarrow> \<not> paginationReached (env j) \<and>
                  trailingUnchanged env (Suc j) < 3"
    unfolding scrollInv_def by blast+
  have al': "\<forall>j. a \<le> j \<and> j < k \<longrightarrow> stillActive (env j)"
  proof (intro allI impI)
    fix j assume j: "a \<le> j \<and> j < k"
    show "stillActive (env j)"
    proof (cases "j = a")
      case True then show ?thesis using act by simp
    next
      case False
      with j have "a + 1 \<le> j \<and> j < k" by simp
      then show ?thesis using al by blast
    qed
  qed
  have pl': "\<forall>j. a \<le> j \<and> j + 1 < k \<longrightarrow> \<not> paginationReached (env j) \<and>
                  trailingUnchanged env (Suc j) < 3"
  proof (intro allI impI)
    fix j assume j: "a \<le> j \<and> j + 1 < k"
    show "\<not> paginationReached (env j) \<and> trailingUnchanged env (Suc j) < 3"
    proof (cases "j = a")
      case True then show ?thesis using here by simp
    next
      case False
      with j have "a + 1 \<le> j \<and> j + 1 < k" by simp
      then show ?thesis using pl by blast
    qed
  qed
  from k1 have "a \<le> k" by simp
  moreover from cs have "ex = CountStabilized \<longrightarrow> a < k \<and> trailingUnchanged env k = 3 \<and>
        \<not> paginationReached (env (k - 1))" by auto
  moreover from rp have "ex = ReachedPagination \<longrightarrow> a < k \<and> paginationReached (env (k - 1))"
    by auto
  ultimately show ?thesis unfolding scrollInv_def using k2 ss ae tu al' pl' by blast
qed

lemma scrollInv_exit:
  assumes "a < maxScrollAttempts" and "stillActive (env a)"
    and "ex = CountStabilized \<or> ex = ReachedPagination"
    and "ex = CountStabilized \<longrightarrow> trailingUnchanged env (Suc a) = 3 \<and> \<not> paginationReached (env a)"
    and "ex = ReachedPagination \<longrightarrow> paginationReached (env a)"
  shows "scrollInv env ex (a + 1) a"
proof -
  have "\<forall>j. a \<le> j \<and> j < a + 1 \<longrightarrow> stillActive (env j)"
  proof (intro allI impI)
    fix j assume "a \<le> j \<and> j < a + 1"
    then have "j = a" by simp
    then show "stillActive (env j)" using assms(2) by simp
  qed
  moreover have "\<forall>j. a \<le> j \<and> j + 1 < a + 1 \<longrightarrow> \<not> paginationReached (env j) \<and>
                  trailingUnchanged env (Suc j) < 3" by auto
  moreover have "a + 1 \<le> maxScrollAttempts" using assms(1) by simp
  ultimately show ?thesis unfolding scrollInv_def using assms(3,4,5) by auto
qed

lemma scrollLoop_invariant:
  "scrollLoop env prev st a = (ex, k) \<Longrightarrow>
   prev = (if a = 0 then 0 else cardCount (env (a - 1))) \<Longrightarrow>
   st = trailingUnchanged env a \<Longrightarrow> st < 3 \<Longrightarrow> a \<le> maxScrollAttempts \<Longrightarrow>
   scrollInv env ex k a"
proof (induction env prev st a arbitrary: ex k rule: scrollLoop.induct)
  case (1 env prev st a)
  note res = 1(3) and pv = 1(4) and stv = 1(5) and st3 = 1(6) and am = 1(7)
  have un: "unchangedRead env a \<longleftrightarrow> cardCount (env a) = prev"
    using pv by (rule unchangedRead_iff)
  show ?case
  proof (cases "a < maxScrollAttempts \<and> stillActive (env a)")
    case False
    have r: "k = a" "ex = (if a < maxScrollAttempts then ScrapingStopped else AttemptsExhausted)"
      using res scrollLoop_stop[where a=a and env=env and prev=prev and st=st, OF False]
      by auto
    show ?thesis
    proof (cases "a < maxScrollAttempts")
      case True
      with False have "\<not> stillActive (env a)" by simp
      with r True stv st3 show ?thesis unfolding scrollInv_def by auto
    next
      case False
      with am have "a = maxScrollAttempts" by simp
      with r False stv st3 show ?thesis unfolding scrollInv_def by auto
    qed
  next
    case True
    then have lt: "a < maxScrollAttempts" and act: "stillActive (env a)" by simp_all
    show ?thesis
    proof (cases "paginationReached (env a)")
      case True
      from res scrollLoop_pagination[where a=a and env=env and prev=prev and st=st, OF lt act True]
      have r: "ex = ReachedPagination" "k = a + 1" by simp_all
      show ?thesis unfolding r by (rule scrollInv_exit[where a=a and env=env, OF lt act]) (simp_all add: True)
    next
      case np: False
      show ?thesis
      proof (cases "cardCount (env a) = prev")
        case same: True
        then have u: "unchangedRead env a" using un by simp
        show ?thesis
        proof (cases "3 \<le> st + 1")
          case True
          from res scrollLoop_stable[where a=a and env=env and prev=prev and st=st, OF lt act np same True]
          have r: "ex = CountStabilized" "k = a + 1" by simp_all
          have "trailingUnchanged env (Suc a) = 3" using u stv st3 True by simp
          then show ?thesis unfolding r by (intro scrollInv_exit[where a=a and env=env, OF lt act]) (simp_all add: np)
        next
          case False
          from res scrollLoop_same[where a=a and env=env and prev=prev and st=st, OF lt act np same False]
          have rec: "scrollLoop env (cardCount (env a)) (st + 1) (a + 1) = (ex, k)" by simp
          have t: "st + 1 = trailingUnchanged env (a + 1)" using u stv by simp
          have p: "cardCount (env a) = (if a + 1 = 0 then 0 else cardCount (env (a + 1 - 1)))"
            by simp
          have s3: "st + 1 < 3" using False by simp
          have am1: "a + 1 \<le> maxScrollAttempts" using lt by simp
          have ih: "scrollInv env ex k (a + 1)"
            by (rule 1(1)[OF True refl np same False rec p t s3 am1])
          have here: "\<not> paginationReached (env a) \<and> trailingUnchanged env (Suc a) < 3"
            using np t False by simp
          show ?thesis using ih act here by (rule scrollInv_step)
        qed
      next
        case changed: False
        then have u: "\<not> unchangedRead env a" using un by simp
        from res scrollLoop_changed[where a=a and env=env and prev=prev and st=st, OF lt act np changed]
        have rec: "scrollLoop env (cardCount (env a)) 0 (a + 1) = (ex, k)" by simp
        have t: "0 = trailingUnchanged env (a + 1)" using u by simp
        have p: "cardCount (env a) = (if a + 1 = 0 then 0 else cardCount (env (a + 1 - 1)))"
          by simp
        have am1: "a + 1 \<le> maxScrollAttempts" using lt by simp
        have ih: "scrollInv env ex k (a + 1)"
          by (rule 1(2)[OF True refl np changed rec p t _ am1]) simp
        have here: "\<not> paginationReached (env a) \<and> trailingUnchanged env (Suc a) < 3"
          using np u by simp
        show ?thesis using ih act here by (rule scrollInv_step)
      qed
    qed
  qed
qed


lemma trailingUnchanged_ge:
  "n \<le> trailingUnchanged env k \<Longrightarrow> n \<le> k \<and> (\<forall>i<n. unchangedRead env (k - Suc i))"
proof (induction k arbitrary: n)
  case 0
  then show ?case by simp
next
  case (Suc k)
  show ?case
  proof (cases n)
    case 0
    then show ?thesis by simp
  next
    case (Suc m)
    with Suc.prems have u: "unchangedRead env k" and m: "m \<le> trailingUnchanged env k"
      by (simp_all split: if_splits)
    from Suc.IH[OF m] have mk: "m \<le> k" and al: "\<forall>i<m. unchangedRead env (k - Suc i)"
      by simp_all
    have "unchangedRead env (Suc k - Suc i)" if "i < n" for i
    proof (cases i)
      case 0
      then show ?thesis using u by simp
    next
      case (Suc i')
      with that \<open>n = Suc m\<close> have "i' < m" by simp
      with al have "unchangedRead env (k - Suc i')" by simp
      then show ?thesis using Suc by simp
    qed
    then show ?thesis using mk \<open>n = Suc m\<close> by simp
  qed
qed

lemma trailingUnchanged_three:
  assumes "2 \<le> j" "unchangedRead env j" "unchangedRead env (j - 1)" "unchangedRead env (j - 2)"
  shows "3 \<le> trailingUnchanged env (Suc j)"
proof -
  define i where "i = j - 2"
  have j: "j = Suc (Suc i)" using assms(1) by (simp add: i_def)
  with assms(2,3,4) show ?thesis by simp
qed

lemma constant_count_nonzero:
  assumes "c \<noteq> 0"
  shows "triggerLazyLoading (\<lambda>k. \<lparr>stillActive = True, cardCount = c, paginationReached = False\<rparr>)
         = (CountStabilized, 4)"
proof -
  let ?env = "\<lambda>k::nat. \<lparr>stillActive = True, cardCount = c, paginationReached = False\<rparr>"
  have "scrollLoop ?env 0 0 0 = scrollLoop ?env c 0 (0 + 1)"
    using assms by (subst scrollLoop.simps) (simp add: maxScrollAttempts_def)
  also have "\<dots> = scrollLoop ?env c (0 + 1) (0 + 1 + 1)"
    by (subst scrollLoop.simps) (simp add: maxScrollAttempts_def)
  also have "\<dots> = scrollLoop ?env c (0 + 1 + 1) (0 + 1 + 1 + 1)"
    by (subst scrollLoop.simps) (simp add: maxScrollAttempts_def)
  also have "\<dots> = (CountStabilized, 0 + 1 + 1 + 1 + 1)"
    by (subst scrollLoop.simps) (simp add: maxScrollAttempts_def)
  finally show ?thesis by (simp add: triggerLazyLoading_def)
qed

lemma constant_count_zero:
  "triggerLazyLoading (\<lambda>k. \<lparr>stillActive = True, cardCount = 0, paginationReached = False\<rparr>)
         = (CountStabilized, 3)"
proof -
  let ?env = "\<lambda>k::nat. \<lparr>stillActive = True, cardCount = 0, paginationReached = False\<rparr>"
  have "scrollLoop ?env 0 0 0 = scrollLoop ?env 0 (0 + 1) (0 + 1)"
    by (subst scrollLoop.simps) (simp add: maxScrollAttempts_def)
  also have "\<dots> = scrollLoop ?env 0 (0 + 1 + 1) (0 + 1 + 1)"
    by (subst scrollLoop.simps) (simp add: maxScrollAttempts_def)
  also have "\<dots> = (CountStabilized, 0 + 1 + 1 + 1)"
    by (subst scrollLoop.simps) (simp add: maxScrollAttempts_def)
  finally show ?thesis by (simp add: triggerLazyLoading_def)
qed

text \<open>
  Claim C7, as the code has it. The scroll loop enters its body at most 20 times. The
  first read is compared with the initial value 0 of \<^verbatim>\<open>previousJobCount\<close>. An exit
  by the stability condition comes after three consecutive unchanged reads and with
  fewer than 20 completed scroll attempts. Once the count has been unchanged in three
  consecutive iterations, the third of them is the last iteration: the loop exits there
  by the stability condition, unless the pagination element is in reach in that
  iteration, which ends the loop first. With no pagination element in reach and the run
  active, a count that never changes exits in the fourth iteration when it is not 0,
  and in the third when it is 0.
\<close>

theorem lazy_load_loop_exits:
  "(triggerLazyLoading env = (ex, k) \<longrightarrow>
      k \<le> maxScrollAttempts \<and>
      (ex = CountStabilized \<longrightarrow>
         3 \<le> k \<and> k - 1 < maxScrollAttempts \<and> unchangedRead env (k - 1) \<and>
         unchangedRead env (k - 2) \<and> unchangedRead env (k - 3)) \<and>
      (\<forall>j. 2 \<le> j \<and> j < k \<and> unchangedRead env j \<and> unchangedRead env (j - 1) \<and>
           unchangedRead env (j - 2) \<longrightarrow>
           k = j + 1 \<and> (ex = CountStabilized \<or> ex = ReachedPagination) \<and>
           (\<not> paginationReached (env j) \<longrightarrow> ex = CountStabilized))) \<and>
   triggerLazyLoading (\<lambda>k. \<lparr>stillActive = True, cardCount = c, paginationReached = False\<rparr>)
     = (CountStabilized, if c = 0 then 3 else 4)"
proof -
  have main: "k \<le> maxScrollAttempts \<and>
      (ex = CountStabilized \<longrightarrow>
         3 \<le> k \<and> k - 1 < maxScrollAttempts \<and> unchangedRead env (k - 1) \<and>
         unchangedRead env (k - 2) \<and> unchangedRead env (k - 3)) \<and>
      (\<forall>j. 2 \<le> j \<and> j < k \<and> unchangedRead env j \<and> unchangedRead env (j - 1) \<and>
           unchangedRead env (j - 2) \<longrightarrow>
           k = j + 1 \<and> (ex = CountStabilized \<or> ex = ReachedPagination) \<and>
           (\<not> paginationReached (env j) \<longrightarrow> ex = CountStabilized))"
    if res: "triggerLazyLoading env = (ex, k)"
  proof -
    from res have "scrollLoop env 0 0 0 = (ex, k)" by (simp add: triggerLazyLoading_def)
    then have "scrollInv env ex k 0"
      by (rule scrollLoop_invariant) (simp_all add: maxScrollAttempts_def)
    then have k2: "k \<le> maxScrollAttempts"
      and cs: "ex = CountStabilized \<longrightarrow> 0 < k \<and> trailingUnchanged env k = 3 \<and>
          \<not> paginationReached (env (k - 1))"
      and rp: "ex = ReachedPagination \<longrightarrow> 0 < k \<and> paginationReached (env (k - 1))"
      and tu: "ex = ScrapingStopped \<or> ex = AttemptsExhausted \<longrightarrow> trailingUnchanged env k < 3"
      and pl: "\<forall>j. 0 \<le> j \<and> j + 1 < k \<longrightarrow> \<not> paginationReached (env j) \<and>
                  trailingUnchanged env (Suc j) < 3"
      unfolding scrollInv_def by blast+
    have stab: "3 \<le> k \<and> k - 1 < maxScrollAttempts \<and> unchangedRead env (k - 1) \<and>
         unchangedRead env (k - 2) \<and> unchangedRead env (k - 3)" if "ex = CountStabilized"
    proof -
      from that cs have "3 \<le> trailingUnchanged env k" by simp
      from trailingUnchanged_ge[OF this] have k3: "3 \<le> k"
        and al: "\<forall>i<3. unchangedRead env (k - Suc i)" by simp_all
      from al have "unchangedRead env (k - Suc 0)" by simp
      moreover from al have "unchangedRead env (k - Suc 1)" by simp
      moreover from al have "unchangedRead env (k - Suc 2)" by (simp add: numeral_3_eq_3)
      ultimately show ?thesis using k3 k2 by (simp add: numeral_3_eq_3 numeral_2_eq_2)
    qed
    have three: "k = j + 1 \<and> (ex = CountStabilized \<or> ex = ReachedPagination) \<and>
           (\<not> paginationReached (env j) \<longrightarrow> ex = CountStabilized)"
      if h: "2 \<le> j \<and> j < k \<and> unchangedRead env j \<and> unchangedRead env (j - 1) \<and>
           unchangedRead env (j - 2)" for j
    proof -
      from h have t: "3 \<le> trailingUnchanged env (Suc j)"
        by (intro trailingUnchanged_three) simp_all
      have "\<not> j + 1 < k" using pl t by auto
      with h have kj: "k = j + 1" by simp
      with t tu have e: "ex = CountStabilized \<or> ex = ReachedPagination"
        by (cases ex) auto
      moreover have "\<not> paginationReached (env j) \<longrightarrow> ex = CountStabilized"
        using e rp kj by auto
      ultimately show ?thesis using kj by simp
    qed
    show ?thesis using k2 stab three by blast
  qed
  have const: "triggerLazyLoading (\<lambda>k. \<lparr>stillActive = True, cardCount = c, paginationReached = False\<rparr>)
     = (CountStabilized, if c = 0 then 3 else 4)"
    using constant_count_zero constant_count_nonzero[of c] by (cases "c = 0") simp_all
  show ?thesis using main const by blast
qed

theorem lazy_load_loop_exits_witness:
  "triggerLazyLoading
     (\<lambda>k. \<lparr>stillActive = True, cardCount = (if k < 2 then 7 * (k + 1) else 14),
            paginationReached = False\<rparr>) = (CountStabilized, 5) \<and>
   triggerLazyLoading (\<lambda>k. \<lparr>stillActive = True, cardCount = 7, paginationReached = False\<rparr>)
     = (CountStabilized, 4)"
proof -
  let ?env = "\<lambda>k::nat. \<lparr>stillActive = True, cardCount = (if k < 2 then 7 * (k + 1) else 14),
            paginationReached = False\<rparr>"
  have e: "triggerLazyLoading ?env = (CountStabilized, 5)" by code_simp
  show ?thesis
    using lazy_load_loop_exits[of ?env CountStabilized 5 7] e by simp
qed

text \<open>
  The claim as stated fails: a count that stays 0 exits in the third iteration, not the
  fourth; and after three unchanged reads the loop can exit by the pagination check,
  which comes before the stability check, instead of the stability condition.
\<close>

theorem lazy_load_loop_counterexample:
  "triggerLazyLoading (\<lambda>k. \<lparr>stillActive = True, cardCount = 0, paginationReached = False\<rparr>)
     = (CountStabilized, 3) \<and>
   triggerLazyLoading (\<lambda>k. \<lparr>stillActive = True, cardCount = 7, paginationReached = (k = 3)\<rparr>)
     = (ReachedPagination, 4)"
  by code_simp

section \<open>Properties of the date conversion\<close>




















































section \<open>Properties of record extraction\<close>

lemma extractJobDataFromCard_rejects:
  "cardCleanTitle jobCard = [] \<or> cardCompany jobCard = [] \<Longrightarrow>
   extractJobDataFromCard page jobCard = None"
  by (auto simp: extractJobDataFromCard_def Let_def)

lemma extractJobDataFromCard_accepts:
  assumes "extractJobDataFromCard page jobCard = Some b"
  shows "title b = cardCleanTitle jobCard" and "company b = cardCompany jobCard"
    and "cardCleanTitle jobCard \<noteq> []" and "cardCompany jobCard \<noteq> []"
  using assms
  by (auto simp: extractJobDataFromCard_def Let_def split: if_splits sum.splits)

lemma extractJobDataFromDetailPage_rejects:
  "trimmedText (pageTitleElement doc) = [] \<or> trimmedText (pageCompanyElement doc) = [] \<Longrightarrow>
   extractJobDataFromDetailPage page doc = None"
  by (auto simp: extractJobDataFromDetailPage_def Let_def)

lemma extractJobDataFromDetailPage_accepts:
  assumes "extractJobDataFromDetailPage page doc = Some b"
  shows "title b = trimmedText (pageTitleElement doc)"
    and "company b = trimmedText (pageCompanyElement doc)"
    and "title b \<noteq> []" and "company b \<noteq> []"
  using assms
  by (auto simp: extractJobDataFromDetailPage_def Let_def split: if_splits)

lemma pushIfNew_origin:
  "j \<in> set (pushIfNew js jd) \<Longrightarrow> j \<in> set js \<or> jd = Some j"
  by (auto simp: pushIfNew_def split: option.splits if_splits)

lemma scrapeJobListings_origin:
  "j \<in> set (scrapeJobListings page cards js) \<Longrightarrow>
   j \<in> set js \<or> (\<exists>c \<in> set cards. extractJobDataFromCard page c = Some j)"
proof (induction cards arbitrary: js)
  case Nil
  then show ?case by (simp add: scrapeJobListings_def)
next
  case (Cons c cards)
  let ?js = "pushIfNew js (extractJobDataFromCard page c)"
  have "j \<in> set (scrapeJobListings page cards ?js)"
    using Cons.prems by (simp add: scrapeJobListings_def)
  then have "j \<in> set ?js \<or> (\<exists>c' \<in> set cards. extractJobDataFromCard page c' = Some j)"
    by (rule Cons.IH)
  then show ?case using pushIfNew_origin[of j js "extractJobDataFromCard page c"] by auto
qed

text \<open>
  Claim C5. Extraction from a card returns \<^verbatim>\<open>null\<close> whenever the cleaned title or
  the company is empty, and so does extraction from a detail page whenever its title
  or its company is empty; a record that extraction returns has a title and a company
  that are not empty. A card that is rejected leaves the array of jobs as it was, in
  the listing scrape and in the detailed scrape, as does a rejected detail page; and
  every record in the array after a listing scrape was there before or is the record
  of a card that extraction accepted.
\<close>

theorem record_validation_gate:
  "(cardCleanTitle jobCard = [] \<or> cardCompany jobCard = [] \<longrightarrow>
      extractJobDataFromCard page jobCard = None) \<and>
   (\<forall>b. extractJobDataFromCard page jobCard = Some b \<longrightarrow> title b \<noteq> [] \<and> company b \<noteq> []) \<and>
   (trimmedText (pageTitleElement doc) = [] \<or> trimmedText (pageCompanyElement doc) = [] \<longrightarrow>
      extractJobDataFromDetailPage page doc = None) \<and>
   (\<forall>b. extractJobDataFromDetailPage page doc = Some b \<longrightarrow> title b \<noteq> [] \<and> company b \<noteq> []) \<and>
   (extractJobDataFromCard page jobCard = None \<longrightarrow>
      scrapeJobListings page [jobCard] js = js \<and>
      processJobCardDetailed page jobCard clickFailure detailsContainer js = (None, js)) \<and>
   (extractJobDataFromDetailPage page doc = None \<longrightarrow> scrapeJobDetail page doc js = js) \<and>
   (\<forall>j \<in> set (scrapeJobListings page cards js).
      j \<in> set js \<or> (\<exists>c \<in> set cards. extractJobDataFromCard page c = Some j \<and>
                                 title j \<noteq> [] \<and> company j \<noteq> []))"
proof -
  have 1: "cardCleanTitle jobCard = [] \<or> cardCompany jobCard = [] \<longrightarrow>
      extractJobDataFromCard page jobCard = None"
    using extractJobDataFromCard_rejects by blast
  have 2: "\<forall>b. extractJobDataFromCard page jobCard = Some b \<longrightarrow> title b \<noteq> [] \<and> company b \<noteq> []"
    using extractJobDataFromCard_accepts by metis
  have 3: "trimmedText (pageTitleElement doc) = [] \<or> trimmedText (pageCompanyElement doc) = [] \<longrightarrow>
      extractJobDataFromDetailPage page doc = None"
    using extractJobDataFromDetailPage_rejects by blast
  have 4: "\<forall>b. extractJobDataFromDetailPage page doc = Some b \<longrightarrow> title b \<noteq> [] \<and> company b \<noteq> []"
    using extractJobDataFromDetailPage_accepts(3,4) by blast
  have 5: "extractJobDataFromCard page jobCard = None \<longrightarrow>
      scrapeJobListings page [jobCard] js = js \<and>
      processJobCardDetailed page jobCard clickFailure detailsContainer js = (None, js)"
    by (simp add: scrapeJobListings_def pushIfNew_def processJobCardDetailed_def)
  have 6: "extractJobDataFromDetailPage page doc = None \<longrightarrow> scrapeJobDetail page doc js = js"
    by (simp add: scrapeJobDetail_def pushIfNew_def)
  have 7: "\<forall>j \<in> set (scrapeJobListings page cards js).
      j \<in> set js \<or> (\<exists>c \<in> set cards. extractJobDataFromCard page c = Some j \<and>
                                 title j \<noteq> [] \<and> company j \<noteq> [])"
  proof
    fix j assume "j \<in> set (scrapeJobListings page cards js)"
    then have "j \<in> set js \<or> (\<exists>c \<in> set cards. extractJobDataFromCard page c = Some j)"
      by (rule scrapeJobListings_origin)
    then show "j \<in> set js \<or> (\<exists>c \<in> set cards. extractJobDataFromCard page c = Some j \<and>
                                 title j \<noteq> [] \<and> company j \<noteq> [])"
      using extractJobDataFromCard_accepts by metis
  qed
  from 1 2 3 4 5 6 7 show ?thesis by (intro conjI)
qed

theorem record_validation_gate_witness:
  "extractJobDataFromCard
      \<lparr>windowHref = ''https://www.linkedin.com/jobs/search/'', clockNow = 1767225600000,
        clockOffset = 0\<rparr>
      \<lparr>titleElement = Some ''Engineer'', titleAriaLabel = None, companyElement = Some ''   '',
        locationElement = Some ''Berlin'', linkElement = None, postedDateElement = None,
        insightElement = None, cardJobId = Some ''42'', hasJobLink = True\<rparr> = None \<and>
   scrapeJobListings
      \<lparr>windowHref = ''https://www.linkedin.com/jobs/search/'', clockNow = 1767225600000,
        clockOffset = 0\<rparr>
      [\<lparr>titleElement = Some ''Engineer'', titleAriaLabel = None, companyElement = Some ''   '',
         locationElement = Some ''Berlin'', linkElement = None, postedDateElement = None,
         insightElement = None, cardJobId = Some ''42'', hasJobLink = True\<rparr>] [] = [] \<and>
   extractJobDataFromDetailPage
      \<lparr>windowHref = ''https://www.linkedin.com/jobs/search/'', clockNow = 1767225600000,
        clockOffset = 0\<rparr>
      \<lparr>pageTitleElement = None, pageCompanyElement = Some ''Acme'', pageLocationElement = None,
        pageDescriptionElement = None, pageSalaryElement = None\<rparr> = None \<and>
   map title (scrapeJobListings
      \<lparr>windowHref = ''https://www.linkedin.com/jobs/search/'', clockNow = 1767225600000,
        clockOffset = 0\<rparr>
      [\<lparr>titleElement = Some ''Engineer'', titleAriaLabel = None, companyElement = Some ''   '',
         locationElement = Some ''Berlin'', linkElement = None, postedDateElement = None,
         insightElement = None, cardJobId = Some ''42'', hasJobLink = True\<rparr>,
       \<lparr>titleElement = Some ''Engineer'', titleAriaLabel = Some ''Analyst with verification'',
         companyElement = Some '' Acme '', locationElement = Some ''Berlin'', linkElement = None,
         postedDateElement = None, insightElement = None, cardJobId = Some ''43'',
         hasJobLink = True\<rparr>] []) = [''Analyst'']"
proof -
  let ?page = "\<lparr>windowHref = ''https://www.linkedin.com/jobs/search/'',
                 clockNow = 1767225600000, clockOffset = 0\<rparr>"
  let ?rejected = "\<lparr>titleElement = Some ''Engineer'', titleAriaLabel = None,
                     companyElement = Some ''   '', locationElement = Some ''Berlin'',
                     linkElement = None, postedDateElement = None, insightElement = None,
                     cardJobId = Some ''42'', hasJobLink = True\<rparr>"
  let ?doc = "\<lparr>pageTitleElement = None, pageCompanyElement = Some ''Acme'',
                pageLocationElement = None, pageDescriptionElement = None,
                pageSalaryElement = None\<rparr>"
  have c: "cardCompany ?rejected = []" by code_simp
  have d: "trimmedText (pageTitleElement ?doc) = []" by code_simp
  have l: "map title (scrapeJobListings ?page
      [?rejected,
       \<lparr>titleElement = Some ''Engineer'', titleAriaLabel = Some ''Analyst with verification'',
         companyElement = Some '' Acme '', locationElement = Some ''Berlin'', linkElement = None,
         postedDateElement = None, insightElement = None, cardJobId = Some ''43'',
         hasJobLink = True\<rparr>] []) = [''Analyst'']"
    by code_simp
  show ?thesis
    using record_validation_gate
      [where jobCard = "?rejected" and page = "?page" and doc = "?doc" and js = "[]"
         and cards = "[]"]
      c d l
    by simp
qed

section \<open>Properties of the enrichment\<close>

lemma clickAndExtractJobDetails_returns:
  "clickAndExtractJobDetails page jobCard clickFailure detailsContainer b \<noteq> None"
  by (simp add: clickAndExtractJobDetails_def split: option.splits)

lemma clickAndExtractJobDetails_click_failure:
  "clickAndExtractJobDetails page jobCard (Some err) detailsContainer b = Some b"
  by (simp add: clickAndExtractJobDetails_def)

lemma extractDetailedJobInfo_failure:
  "enhance page panel b = Inl err \<Longrightarrow> extractDetailedJobInfo page (Some panel) b = b"
  by (simp add: extractDetailedJobInfo_def)

lemma clickAndExtractJobDetails_extract_failure:
  "enhance page panel b = Inl err \<Longrightarrow>
   clickAndExtractJobDetails page jobCard clickFailure (Some panel) b = Some b"
  by (simp add: clickAndExtractJobDetails_def extractDetailedJobInfo_failure
      split: option.splits)

text \<open>
  Claim C6. \<^verbatim>\<open>clickAndExtractJobDetails\<close> never returns \<^verbatim>\<open>null\<close>. When an
  exception is thrown while the card is scrolled into view, clicked or the details
  are awaited, or when the body of \<^verbatim>\<open>extractDetailedJobInfo\<close> throws (whatever it
  had already written to its copy), the result is the basic record \<open>b\<close>, unchanged;
  and \<^verbatim>\<open>processJobCardDetailed\<close> then pushes \<open>b\<close> for a card whose basic record is
  \<open>b\<close> and is not a duplicate.
\<close>

theorem enrichment_best_effort:
  "clickAndExtractJobDetails page jobCard clickFailure detailsContainer b \<noteq> None \<and>
   (clickFailure = Some err \<longrightarrow>
      clickAndExtractJobDetails page jobCard clickFailure detailsContainer b = Some b) \<and>
   (detailsContainer = Some panel \<and> enhance page panel b = Inl err \<longrightarrow>
      extractDetailedJobInfo page detailsContainer b = b \<and>
      clickAndExtractJobDetails page jobCard clickFailure detailsContainer b = Some b) \<and>
   (extractJobDataFromCard page jobCard = Some b \<and> \<not> isDuplicateJob js b \<and>
    (clickFailure = Some err \<or> (detailsContainer = Some panel \<and> enhance page panel b = Inl err))
    \<longrightarrow> processJobCardDetailed page jobCard clickFailure detailsContainer js
          = (Some True, js @ [b]))"
proof -
  have 1: "clickAndExtractJobDetails page jobCard clickFailure detailsContainer b \<noteq> None"
    by (rule clickAndExtractJobDetails_returns)
  have 2: "clickFailure = Some err \<longrightarrow>
      clickAndExtractJobDetails page jobCard clickFailure detailsContainer b = Some b"
    by (simp add: clickAndExtractJobDetails_click_failure)
  have 3: "detailsContainer = Some panel \<and> enhance page panel b = Inl err \<longrightarrow>
      extractDetailedJobInfo page detailsContainer b = b \<and>
      clickAndExtractJobDetails page jobCard clickFailure detailsContainer b = Some b"
    using extractDetailedJobInfo_failure clickAndExtractJobDetails_extract_failure by blast
  have 4: "extractJobDataFromCard page jobCard = Some b \<and> \<not> isDuplicateJob js b \<and>
    (clickFailure = Some err \<or> (detailsContainer = Some panel \<and> enhance page panel b = Inl err))
    \<longrightarrow> processJobCardDetailed page jobCard clickFailure detailsContainer js
          = (Some True, js @ [b])"
  proof
    assume a: "extractJobDataFromCard page jobCard = Some b \<and> \<not> isDuplicateJob js b \<and>
      (clickFailure = Some err \<or>
       (detailsContainer = Some panel \<and> enhance page panel b = Inl err))"
    then have "clickAndExtractJobDetails page jobCard clickFailure detailsContainer b = Some b"
      using 2 3 by blast
    then show "processJobCardDetailed page jobCard clickFailure detailsContainer js
          = (Some True, js @ [b])"
      using a by (simp add: processJobCardDetailed_def)
  qed
  from 1 2 3 4 show ?thesis by (intro conjI)
qed

end
